theory Spec2Isabelle
  imports Complex_Main
begin

section \<open>The ingestion flow of Tu\_CV\_Chatero (src/ingestion\_flow.py)\<close>

text \<open>
  The flow loads documents from three directories, splits them into chunks, asks an
  embedding provider for one vector per chunk and upserts the result into a Qdrant
  collection. The file system, the document loaders, the text splitter, the embedding
  provider and the Qdrant client are libraries outside the repository: the model takes what they answer
  as parameters (records of functions) and records every request made to them, in program
  order, together with every line printed. The prefect decorators \<^verbatim>\<open>@task\<close> and
  \<^verbatim>\<open>@flow\<close> are used without arguments: they run the function they wrap once and pass
  its result or its exception on, and are left out.
\<close>

subsection \<open>Exceptions\<close>

text \<open>
  \<open>IndexError\<close> is what Python raises on \<^verbatim>\<open>vectors[0]\<close> for an empty list.
  \<open>Exception msg\<close> is any other instance of Python's class \<^verbatim>\<open>Exception\<close> raised by a
  library; \<open>BaseException msg\<close> is an exception outside that class (KeyboardInterrupt,
  SystemExit), which \<^verbatim>\<open>except Exception\<close> does not catch.
\<close>

datatype pyexn = IndexError | Exception string | BaseException string

fun is_Exception :: "pyexn \<Rightarrow> bool" where
  "is_Exception IndexError = True"
| "is_Exception (Exception _) = True"
| "is_Exception (BaseException _) = False"

subsection \<open>Data\<close>

text \<open>
  A langchain \<^verbatim>\<open>Document\<close>: its text and its metadata dictionary. A character of a
  \<open>string\<close> stands for one code point below 256. The components of an embedding vector
  are never computed with, only carried.
\<close>

type_synonym metadata = "(string \<times> string) list"

record document =
  page_content :: string
  metadata :: metadata

type_synonym vector = "real list"

text \<open>The values of the payload dictionary built at line 107.\<close>

datatype pyval = Str string | Dict metadata

type_synonym payload = "(string \<times> pyval) list"

datatype distance = COSINE | EUCLID | DOT | MANHATTAN

text \<open>\<^verbatim>\<open>models.Batch(ids=..., vectors=..., payloads=...)\<close>\<close>

record batch =
  batch_ids :: "nat list"
  batch_vectors :: "vector list"
  batch_payloads :: "payload list"

datatype loader = PyPDFLoader | UnstructuredMarkdownLoader | UnstructuredWordDocumentLoader | TextLoader

text \<open>The module-level configuration read from the environment (lines 15 to 17).\<close>

record config =
  QDRANT_HOST :: string
  QDRANT_PORT :: int
  COLLECTION_NAME :: string

subsection \<open>Requests to the outside and printed lines\<close>

datatype call =
    NewEmbeddings string
  | EmbedDocuments "string list"
  | NewQdrantClient string int
  | GetCollection string
  | RecreateCollection string nat distance
  | Upsert string batch bool

text \<open>
  One constructor per \<^verbatim>\<open>print\<close> statement of the source, carrying the values the
  f-string interpolates; \<open>Called\<close> for a request to the embedding provider or to Qdrant,
  \<open>Loading\<close> for a loader run on a file.
\<close>

datatype event =
    Called call
  | Loading loader string
  | Warn_directory_missing string
  | Error_loading_file string pyexn
  | Loaded_documents nat string
  | Chunks_created nat
  | Valid_chunks nat
  | Initialising_embeddings
  | Sending_chunks nat
  | Vectors_generated nat
  | Error_generating_embeddings pyexn
  | Collection_exists string
  | Collection_missing string nat
  | Uploading_points
  | Ingestion_completed
  | Loading_started
  | Total_documents nat
  | No_documents_found

text \<open>The requests to the embedding provider and to Qdrant among the events, in order.\<close>

fun calls_of :: "event list \<Rightarrow> call list" where
  "calls_of [] = []"
| "calls_of (Called c # evs) = c # calls_of evs"
| "calls_of (_ # evs) = calls_of evs"

subsection \<open>Running with output and exceptions\<close>

text \<open>
  A computation yields the events it produced and either the exception that ended it
  (\<open>Inl\<close>) or its value (\<open>Inr\<close>).
\<close>

type_synonym 'a io = "event list \<times> (pyexn + 'a)"

definition io_return :: "'a \<Rightarrow> 'a io" where
  "io_return x = ([], Inr x)"

definition io_raise :: "pyexn \<Rightarrow> 'a io" where
  "io_raise e = ([], Inl e)"

definition io_print :: "event \<Rightarrow> unit io" where
  "io_print ev = ([ev], Inr ())"

definition io_bind :: "'a io \<Rightarrow> ('a \<Rightarrow> 'b io) \<Rightarrow> 'b io" where
  "io_bind m f =
     (case m of
        (evs, Inl e) \<Rightarrow> (evs, Inl e)
      | (evs, Inr x) \<Rightarrow> (case f x of (evs', r) \<Rightarrow> (evs @ evs', r)))"

text \<open>\<^verbatim>\<open>try: m except Exception as e: h e\<close>\<close>

definition io_try :: "'a io \<Rightarrow> (pyexn \<Rightarrow> 'a io) \<Rightarrow> 'a io" where
  "io_try m h =
     (case m of
        (evs, Inl e) \<Rightarrow>
          (if is_Exception e then (case h e of (evs', r) \<Rightarrow> (evs @ evs', r)) else (evs, Inl e))
      | (evs, Inr x) \<Rightarrow> (evs, Inr x))"

text \<open>A loader run on a file: the documents, or what it raised.\<close>

definition io_load :: "loader \<Rightarrow> string \<Rightarrow> pyexn + document list \<Rightarrow> document list io" where
  "io_load k path answer = ([Loading k path], answer)"

text \<open>A request to a library that returns a value or raises.\<close>

definition io_call :: "call \<Rightarrow> pyexn + 'a \<Rightarrow> 'a io" where
  "io_call c answer = ([Called c], answer)"

text \<open>A request whose value the source does not use: \<open>None\<close> when it returns.\<close>

definition io_call_unit :: "call \<Rightarrow> pyexn option \<Rightarrow> unit io" where
  "io_call_unit c answer = ([Called c], case answer of None \<Rightarrow> Inr () | Some e \<Rightarrow> Inl e)"

subsection \<open>The libraries, as the run observes them\<close>

text \<open>
  \<open>isdir\<close> and \<open>walk\<close> are \<^verbatim>\<open>os.path.isdir\<close> and \<^verbatim>\<open>os.walk\<close> (a list of
  \<open>(dirpath, dirnames, filenames)\<close>, the source's \<^verbatim>\<open>root, _, files\<close>);
  \<open>load k path\<close> is \<^verbatim>\<open>loader_class(file_path).load()\<close>.
\<close>

record filesystem =
  isdir :: "string \<Rightarrow> bool"
  walk :: "string \<Rightarrow> (string \<times> string list \<times> string list) list"
  load :: "loader \<Rightarrow> string \<Rightarrow> pyexn + document list"

text \<open>
  The embedding provider and the Qdrant client. \<open>get_collection\<close> answers with the
  descriptor of the collection (vector size and distance) or raises.
\<close>

record remote =
  new_embeddings :: "string \<Rightarrow> pyexn option"
  embed_documents :: "string list \<Rightarrow> pyexn + vector list"
  new_client :: "string \<Rightarrow> int \<Rightarrow> pyexn option"
  get_collection :: "string \<Rightarrow> pyexn + (nat \<times> distance)"
  recreate_collection :: "string \<Rightarrow> nat \<Rightarrow> distance \<Rightarrow> pyexn option"
  upsert :: "string \<Rightarrow> batch \<Rightarrow> bool \<Rightarrow> pyexn option"

subsection \<open>Paths and extensions\<close>

text \<open>\<^verbatim>\<open>str.rfind\<close> for one character: the last index, or \<open>-1\<close>.\<close>

definition rfind :: "char \<Rightarrow> string \<Rightarrow> int" where
  "rfind c s = (case filter (\<lambda>i. s ! i = c) (rev [0..<length s]) of [] \<Rightarrow> -1 | i # _ \<Rightarrow> int i)"

text \<open>
  \<^verbatim>\<open>os.path.splitext(p)[1]\<close> (posixpath): the text from the last dot on, when that dot
  comes after the last separator and some character between the two is not a dot.
\<close>

definition splitext_ext :: "string \<Rightarrow> string" where
  "splitext_ext p =
     (let sepIndex = rfind (CHR ''/'') p; dotIndex = rfind (CHR ''.'') p in
      if dotIndex > sepIndex \<and>
         list_ex (\<lambda>i. p ! i \<noteq> CHR ''.'') [nat (sepIndex + 1)..<nat dotIndex]
      then drop (nat dotIndex) p else [])"

text \<open>
  \<^verbatim>\<open>str.lower\<close> on the letters A to Z. No key of \<open>LOADER_MAPPING\<close> contains a
  character that another code point lowers to, so membership in the mapping is decided
  by these letters alone.
\<close>

definition lower_char :: "char \<Rightarrow> char" where
  "lower_char c =
     (let n = (of_char c :: nat) in if 65 \<le> n \<and> n \<le> 90 then char_of (n + 32) else c)"

definition lower :: "string \<Rightarrow> string" where
  "lower s = map lower_char s"

text \<open>\<^verbatim>\<open>os.path.join(a, b)\<close> (posixpath, two arguments).\<close>

definition path_join :: "string \<Rightarrow> string \<Rightarrow> string" where
  "path_join a b =
     (if b \<noteq> [] \<and> hd b = CHR ''/'' then b
      else if a = [] \<or> last a = CHR ''/'' then a @ b
      else a @ ''/'' @ b)"

definition LOADER_MAPPING :: "string \<Rightarrow> loader option" where
  "LOADER_MAPPING = map_of
     [(''.pdf'', PyPDFLoader),
      (''.md'', UnstructuredMarkdownLoader),
      (''.docx'', UnstructuredWordDocumentLoader),
      (''.py'', TextLoader), (''.js'', TextLoader), (''.ts'', TextLoader),
      (''.html'', TextLoader), (''.css'', TextLoader), (''.txt'', TextLoader),
      (''.ipynb'', TextLoader)]"

subsection \<open>load\_documents\_from\_directory (lines 36 to 53)\<close>

text \<open>The body of the inner loop for one file (lines 43 to 51); \<open>all_docs\<close> is the accumulator.\<close>

definition load_file :: "filesystem \<Rightarrow> string \<Rightarrow> document list \<Rightarrow> string \<Rightarrow> document list io" where
  "load_file fs dirpath all_docs file_name =
     (let file_path = path_join dirpath file_name;
          file_ext = lower (splitext_ext file_name) in
      case LOADER_MAPPING file_ext of
        None \<Rightarrow> io_return all_docs
      | Some loader_class \<Rightarrow>
          io_try
            (io_bind (io_load loader_class file_path (load fs loader_class file_path))
               (\<lambda>docs. io_return (all_docs @ docs)))
            (\<lambda>e. io_bind (io_print (Error_loading_file file_path e)) (\<lambda>_. io_return all_docs)))"

fun load_files :: "filesystem \<Rightarrow> string \<Rightarrow> document list \<Rightarrow> string list \<Rightarrow> document list io" where
  "load_files fs dirpath all_docs [] = io_return all_docs"
| "load_files fs dirpath all_docs (file_name # files) =
     io_bind (load_file fs dirpath all_docs file_name) (\<lambda>all_docs'. load_files fs dirpath all_docs' files)"

fun load_walk :: "filesystem \<Rightarrow> document list \<Rightarrow> (string \<times> string list \<times> string list) list \<Rightarrow> document list io" where
  "load_walk fs all_docs [] = io_return all_docs"
| "load_walk fs all_docs ((dirpath, _, files) # entries) =
     io_bind (load_files fs dirpath all_docs files) (\<lambda>all_docs'. load_walk fs all_docs' entries)"

definition load_documents_from_directory :: "filesystem \<Rightarrow> string \<Rightarrow> document list io" where
  "load_documents_from_directory fs directory =
     (if \<not> isdir fs directory
      then io_bind (io_print (Warn_directory_missing directory)) (\<lambda>_. io_return [])
      else io_bind (load_walk fs [] (walk fs directory)) (\<lambda>all_docs.
           io_bind (io_print (Loaded_documents (length all_docs) directory)) (\<lambda>_.
           io_return all_docs)))"

subsection \<open>split\_documents (lines 56 to 61)\<close>

text \<open>
  The splitter is langchain's \<^verbatim>\<open>RecursiveCharacterTextSplitter\<close>, a library outside the
  repository: \<open>splitter chunk_size chunk_overlap documents\<close> stands for
  \<^verbatim>\<open>RecursiveCharacterTextSplitter(chunk_size=..., chunk_overlap=...).split_documents(documents)\<close>
  and is a parameter.
\<close>

definition split_documents ::
  "(nat \<Rightarrow> nat \<Rightarrow> document list \<Rightarrow> document list) \<Rightarrow> document list \<Rightarrow> document list io" where
  "split_documents splitter documents =
     (if documents = [] then io_return []
      else let chunks = splitter 1000 200 documents in
           io_bind (io_print (Chunks_created (length chunks))) (\<lambda>_. io_return chunks))"

subsection \<open>generate\_and\_store\_embeddings (lines 64 to 112)\<close>

text \<open>
  \<^verbatim>\<open>str.strip()\<close> removes leading and trailing whitespace; below 256 Python's
  whitespace code points are 9 to 13, 28 to 32, 133 and 160.
\<close>

definition is_space :: "char \<Rightarrow> bool" where
  "is_space c = ((of_char c :: nat) \<in> {9, 10, 11, 12, 13, 28, 29, 30, 31, 32, 133, 160})"

definition strip :: "string \<Rightarrow> string" where
  "strip s = rev (dropWhile is_space (rev (dropWhile is_space s)))"

text \<open>The condition of the comprehension at line 67.\<close>

definition is_valid_chunk :: "document \<Rightarrow> bool" where
  "is_valid_chunk c = (page_content c \<noteq> [] \<and> length (strip (page_content c)) > 0)"

text \<open>The \<^verbatim>\<open>try\<close> block of lines 71 to 86.\<close>

definition embed_chunks :: "remote \<Rightarrow> document list \<Rightarrow> (string list \<times> metadata list \<times> vector list) io" where
  "embed_chunks r valid_chunks =
     io_try
       (io_bind (io_print Initialising_embeddings) (\<lambda>_.
        io_bind (io_call_unit (NewEmbeddings ''models/text-embedding-004'')
                   (new_embeddings r ''models/text-embedding-004'')) (\<lambda>_.
        let texts = map page_content valid_chunks;
            metadatas = map metadata valid_chunks in
        io_bind (io_print (Sending_chunks (length texts))) (\<lambda>_.
        io_bind (io_call (EmbedDocuments texts) (embed_documents r texts)) (\<lambda>vectors.
        io_bind (io_print (Vectors_generated (length vectors))) (\<lambda>_.
        io_return (texts, metadatas, vectors)))))))
       (\<lambda>e. io_bind (io_print (Error_generating_embeddings e)) (\<lambda>_. io_raise e))"

text \<open>\<^verbatim>\<open>len(vectors[0])\<close> (line 89).\<close>

definition first_vector_size :: "vector list \<Rightarrow> nat io" where
  "first_vector_size vectors =
     (case vectors of [] \<Rightarrow> io_raise IndexError | v # _ \<Rightarrow> io_return (length v))"

text \<open>Lines 91 to 99.\<close>

definition ensure_collection :: "remote \<Rightarrow> string \<Rightarrow> nat \<Rightarrow> unit io" where
  "ensure_collection r name vector_size =
     io_try
       (io_bind (io_call (GetCollection name) (get_collection r name)) (\<lambda>_.
        io_print (Collection_exists name)))
       (\<lambda>_. io_bind (io_print (Collection_missing name vector_size)) (\<lambda>_.
            io_call_unit (RecreateCollection name vector_size COSINE)
              (recreate_collection r name vector_size COSINE)))"

text \<open>The dictionary literal of line 107.\<close>

definition make_payload :: "string \<times> metadata \<Rightarrow> payload" where
  "make_payload tm = (case tm of (text, meta) \<Rightarrow>
     [(''page_content'', Str text), (''metadata'', Dict meta)])"

text \<open>The batch of lines 104 to 108.\<close>

definition make_batch :: "document list \<Rightarrow> string list \<Rightarrow> metadata list \<Rightarrow> vector list \<Rightarrow> batch" where
  "make_batch valid_chunks texts metadatas vectors =
     \<lparr>batch_ids = [0..<length valid_chunks],
      batch_vectors = vectors,
      batch_payloads = map make_payload (zip texts metadatas)\<rparr>"

text \<open>Lines 88 to 112: the client, the collection and the upsert.\<close>

definition store_points ::
  "remote \<Rightarrow> config \<Rightarrow> document list \<Rightarrow> string list \<Rightarrow> metadata list \<Rightarrow> vector list \<Rightarrow> unit io" where
  "store_points r cfg valid_chunks texts metadatas vectors =
     io_bind (io_call_unit (NewQdrantClient (QDRANT_HOST cfg) (QDRANT_PORT cfg))
                (new_client r (QDRANT_HOST cfg) (QDRANT_PORT cfg))) (\<lambda>_.
     io_bind (first_vector_size vectors) (\<lambda>vector_size.
     io_bind (ensure_collection r (COLLECTION_NAME cfg) vector_size) (\<lambda>_.
     io_bind (io_print Uploading_points) (\<lambda>_.
     io_bind (io_call_unit
                (Upsert (COLLECTION_NAME cfg) (make_batch valid_chunks texts metadatas vectors) True)
                (upsert r (COLLECTION_NAME cfg) (make_batch valid_chunks texts metadatas vectors) True)) (\<lambda>_.
     io_print Ingestion_completed)))))"

definition generate_and_store_embeddings :: "remote \<Rightarrow> config \<Rightarrow> document list \<Rightarrow> unit io" where
  "generate_and_store_embeddings r cfg chunks =
     (if chunks = [] then io_return ()
      else let valid_chunks = filter is_valid_chunk chunks in
      if valid_chunks = [] then io_return ()
      else
        io_bind (io_print (Valid_chunks (length valid_chunks))) (\<lambda>_.
        io_bind (embed_chunks r valid_chunks) (\<lambda>(texts, metadatas, vectors).
        store_points r cfg valid_chunks texts metadatas vectors)))"

subsection \<open>data\_ingestion\_flow (lines 115 to 128)\<close>

definition data_ingestion_flow ::
  "filesystem \<Rightarrow> (nat \<Rightarrow> nat \<Rightarrow> document list \<Rightarrow> document list) \<Rightarrow> remote \<Rightarrow> config \<Rightarrow>
   string \<Rightarrow> string \<Rightarrow> string \<Rightarrow> unit io" where
  "data_ingestion_flow fs splitter r cfg cv_dir projects_dir repos_dir =
     io_bind (io_print Loading_started) (\<lambda>_.
     io_bind (load_documents_from_directory fs cv_dir) (\<lambda>cv_docs.
     io_bind (load_documents_from_directory fs projects_dir) (\<lambda>projects_docs.
     io_bind (load_documents_from_directory fs repos_dir) (\<lambda>repos_docs.
     let all_documents = cv_docs @ projects_docs @ repos_docs in
     io_bind (io_print (Total_documents (length all_documents))) (\<lambda>_.
     if all_documents \<noteq> []
     then io_bind (split_documents splitter all_documents) (\<lambda>chunks.
          generate_and_store_embeddings r cfg chunks)
     else io_print No_documents_found)))))"

subsection \<open>The vector store\<close>

text \<open>
  Modelled from the spec: what the Qdrant server does with an accepted upsert; the server
  is not part of the repository. The spec's glossary gives it: Upsert is insert-or-replace
  by identifier. The points of a collection are a map from identifier to vector and
  payload; the points of a batch are its three lists read side by side.
\<close>

type_synonym points = "nat \<rightharpoonup> (vector \<times> payload)"

definition store_upsert :: "points \<Rightarrow> batch \<Rightarrow> points" where
  "store_upsert pts b =
     foldl (\<lambda>m (i, v, p). m(i \<mapsto> (v, p))) pts (zip (batch_ids b) (zip (batch_vectors b) (batch_payloads b)))"

subsection \<open>The library's splitter\<close>

text \<open>
  The algorithm of langchain's \<^verbatim>\<open>RecursiveCharacterTextSplitter\<close> with its defaults:
  separators \<^verbatim>\<open>["\n\n", "\n", " ", ""]\<close>, \<^verbatim>\<open>keep_separator=True\<close>,
  \<^verbatim>\<open>strip_whitespace=True\<close>, \<^verbatim>\<open>length_function=len\<close>. It belongs to the library, not to
  the repository; \<open>split_documents\<close> and the flow take the splitter as a parameter, and only
  the statement about chunk windows instantiates it with this one.
\<close>

text \<open>\<^verbatim>\<open>re.search(re.escape(sep), text)\<close>: \<open>sep\<close> occurs in \<open>text\<close>.\<close>

fun occurs_in :: "string \<Rightarrow> string \<Rightarrow> bool" where
  "occurs_in sep [] = (sep = [])"
| "occurs_in sep (c # cs) = (take (length sep) (c # cs) = sep \<or> occurs_in sep cs)"

text \<open>
  The pieces of \<open>text\<close> between the occurrences of a non-empty \<open>sep\<close>, found from left to
  right without overlap, as \<^verbatim>\<open>re.split\<close> finds them; \<open>cur\<close> is the piece being read.
\<close>

function pieces :: "string \<Rightarrow> string \<Rightarrow> string \<Rightarrow> string list" where
  "pieces sep cur text =
     (if text = [] then [cur]
      else if sep \<noteq> [] \<and> take (length sep) text = sep
           then cur # pieces sep [] (drop (length sep) text)
      else pieces sep (cur @ [hd text]) (tl text))"
  by pat_completeness auto
termination
  by (relation "measure (\<lambda>(sep, cur, text). length text)") auto

declare pieces.simps [simp del]

text \<open>
  \<^verbatim>\<open>_split_text_with_regex(text, separator, keep_separator=True)\<close>. With the capturing
  group \<^verbatim>\<open>re.split\<close> returns the pieces with the separator between them, and the
  comprehension joins each separator with the piece that follows it; the first piece
  stands alone. The empty separator gives \<^verbatim>\<open>list(text)\<close>. Empty results are dropped.
\<close>

definition split_text_with_regex :: "string \<Rightarrow> string \<Rightarrow> string list" where
  "split_text_with_regex text separator =
     filter (\<lambda>s. s \<noteq> [])
       (if separator \<noteq> []
        then (case pieces separator [] text of
                [] \<Rightarrow> []
              | first # others \<Rightarrow> first # map (\<lambda>p. separator @ p) others)
        else map (\<lambda>c. [c]) text)"

text \<open>
  \<^verbatim>\<open>_join_docs(docs, "")\<close>: the joined and stripped text, or nothing when it is empty.
  The separator of the merge is always the empty string, because \<^verbatim>\<open>keep_separator\<close> is
  set.
\<close>

definition join_docs :: "string list \<Rightarrow> string list" where
  "join_docs docs = (let text = strip (concat docs) in if text = [] then [] else [text])"

text \<open>
  The \<^verbatim>\<open>while\<close> loop of \<^verbatim>\<open>_merge_splits\<close>, which drops pieces from the front of
  \<^verbatim>\<open>current_doc\<close>. The counter \<^verbatim>\<open>total\<close> of the library is at every moment the summed
  length of \<^verbatim>\<open>current_doc\<close> (the separator has length 0), and is computed here.
\<close>

fun pop_front :: "nat \<Rightarrow> nat \<Rightarrow> nat \<Rightarrow> string list \<Rightarrow> string list" where
  "pop_front chunk_size chunk_overlap len [] = []"
| "pop_front chunk_size chunk_overlap len (c # current_doc) =
     (let total = length (concat (c # current_doc)) in
      if total > chunk_overlap \<or> (total + len > chunk_size \<and> total > 0)
      then pop_front chunk_size chunk_overlap len current_doc
      else c # current_doc)"

text \<open>
  The \<^verbatim>\<open>for\<close> loop of \<^verbatim>\<open>_merge_splits(splits, "")\<close> and what follows it. The
  warning the library logs when a chunk is longer than \<open>chunk_size\<close> is left out.
\<close>

fun merge_loop :: "nat \<Rightarrow> nat \<Rightarrow> string list \<Rightarrow> string list \<Rightarrow> string list \<Rightarrow> string list" where
  "merge_loop chunk_size chunk_overlap docs current_doc [] = docs @ join_docs current_doc"
| "merge_loop chunk_size chunk_overlap docs current_doc (d # splits) =
     (if length (concat current_doc) + length d > chunk_size \<and> current_doc \<noteq> []
      then merge_loop chunk_size chunk_overlap (docs @ join_docs current_doc)
             (pop_front chunk_size chunk_overlap (length d) current_doc @ [d]) splits
      else merge_loop chunk_size chunk_overlap docs (current_doc @ [d]) splits)"

definition merge_splits :: "nat \<Rightarrow> nat \<Rightarrow> string list \<Rightarrow> string list" where
  "merge_splits chunk_size chunk_overlap splits = merge_loop chunk_size chunk_overlap [] [] splits"

text \<open>
  The loop over \<^verbatim>\<open>splits\<close> in \<^verbatim>\<open>_split_text\<close>. \<open>deeper\<close> is the recursive call with the
  remaining separators, or \<open>None\<close> when there are none left.
\<close>

fun split_loop ::
  "nat \<Rightarrow> nat \<Rightarrow> (string \<Rightarrow> string list) option \<Rightarrow> string list \<Rightarrow> string list \<Rightarrow> string list \<Rightarrow> string list" where
  "split_loop chunk_size chunk_overlap deeper good_splits final_chunks [] =
     final_chunks @ (if good_splits \<noteq> [] then merge_splits chunk_size chunk_overlap good_splits else [])"
| "split_loop chunk_size chunk_overlap deeper good_splits final_chunks (s # splits) =
     (if length s < chunk_size
      then split_loop chunk_size chunk_overlap deeper (good_splits @ [s]) final_chunks splits
      else split_loop chunk_size chunk_overlap deeper []
             (final_chunks
                @ (if good_splits \<noteq> [] then merge_splits chunk_size chunk_overlap good_splits else [])
                @ (case deeper of None \<Rightarrow> [s] | Some split_deeper \<Rightarrow> split_deeper s))
             splits)"

text \<open>
  \<^verbatim>\<open>_split_text(text, separators)\<close>. The first loop looks for the first separator that is
  empty or occurs in the text; \<open>fallback\<close> is \<^verbatim>\<open>separators[-1]\<close>, used when none does.
\<close>

fun split_text_rec :: "nat \<Rightarrow> nat \<Rightarrow> string \<Rightarrow> string \<Rightarrow> string list \<Rightarrow> string list" where
  "split_text_rec chunk_size chunk_overlap fallback text [] =
     split_loop chunk_size chunk_overlap None [] [] (split_text_with_regex text fallback)"
| "split_text_rec chunk_size chunk_overlap fallback text (s # new_separators) =
     (if s = []
      then split_loop chunk_size chunk_overlap None [] [] (split_text_with_regex text [])
      else if occurs_in s text
      then split_loop chunk_size chunk_overlap
             (if new_separators = [] then None
              else Some (\<lambda>t. split_text_rec chunk_size chunk_overlap (last new_separators) t new_separators))
             [] [] (split_text_with_regex text s)
      else split_text_rec chunk_size chunk_overlap fallback text new_separators)"

definition default_separators :: "string list" where
  "default_separators = [[CHR 0x0A, CHR 0x0A], [CHR 0x0A], '' '', []]"

definition split_text :: "nat \<Rightarrow> nat \<Rightarrow> string \<Rightarrow> string list" where
  "split_text chunk_size chunk_overlap text =
     split_text_rec chunk_size chunk_overlap (last default_separators) text default_separators"

text \<open>
  \<^verbatim>\<open>RecursiveCharacterTextSplitter(chunk_size, chunk_overlap).split_documents(documents)\<close>:
  every chunk of a document's text becomes a document with a copy of its metadata.
\<close>

definition recursive_character_text_splitter :: "nat \<Rightarrow> nat \<Rightarrow> document list \<Rightarrow> document list" where
  "recursive_character_text_splitter chunk_size chunk_overlap documents =
     concat (map (\<lambda>d. map (\<lambda>chunk. \<lparr>page_content = chunk, metadata = metadata d\<rparr>)
                        (split_text chunk_size chunk_overlap (page_content d))) documents)"

text \<open>
  The windows of a text: the first \<open>windowSize\<close> characters, then the same from
  \<open>windowSize - overlap\<close> characters further on, until a window reaches the end of the
  text. This is a description used to state what the splitter returns on a text without
  whitespace, not a function of the source.
\<close>

function sliding_windows :: "nat \<Rightarrow> nat \<Rightarrow> 'a list \<Rightarrow> 'a list list" where
  "sliding_windows windowSize overlap t =
     (if t = [] then []
      else if length t \<le> windowSize \<or> windowSize \<le> overlap then [take windowSize t]
      else take windowSize t # sliding_windows windowSize overlap (drop (windowSize - overlap) t))"
  by pat_completeness auto
termination
  by (relation "measure (\<lambda>(windowSize, overlap, t). length t)") auto

declare sliding_windows.simps [simp del]

text \<open>
  The spec's concatenation-with-dedup of a chunk sequence (section 8): the first chunk,
  followed by every later chunk without the \<open>overlap\<close> characters it shares with its
  predecessor.
\<close>

definition join_chunks :: "nat \<Rightarrow> 'a list list \<Rightarrow> 'a list" where
  "join_chunks overlap cs =
     (case cs of [] \<Rightarrow> [] | c # rest \<Rightarrow> c @ concat (map (drop overlap) rest))"

subsection \<open>Example inputs\<close>

text \<open>The defaults of lines 15 to 17.\<close>

definition default_config :: config where
  "default_config =
     \<lparr>QDRANT_HOST = ''localhost'', QDRANT_PORT = 6333, COLLECTION_NAME = ''perfil_personal''\<rparr>"

text \<open>
  A provider that answers every embedding request with \<open>embedded\<close>, and a Qdrant whose
  collection lookup answers \<open>looked_up\<close>; every other request succeeds.
\<close>

definition stub_remote :: "pyexn + vector list \<Rightarrow> pyexn + (nat \<times> distance) \<Rightarrow> remote" where
  "stub_remote embedded looked_up =
     \<lparr>new_embeddings = (\<lambda>_. None),
      embed_documents = (\<lambda>_. embedded),
      new_client = (\<lambda>_ _. None),
      get_collection = (\<lambda>_. looked_up),
      recreate_collection = (\<lambda>_ _ _. None),
      upsert = (\<lambda>_ _ _. None)\<rparr>"

definition resume_document :: document where
  "resume_document =
     \<lparr>page_content = ''Python developer'', metadata = [(''source'', ''/app/data/CV/resume.txt'')]\<rparr>"

definition blank_document :: document where
  "blank_document = \<lparr>page_content = ''  '', metadata = [(''source'', ''/app/data/CV/blank.txt'')]\<rparr>"

definition skills_document :: document where
  "skills_document =
     \<lparr>page_content = ''Data engineer'', metadata = [(''source'', ''/app/data/CV/skills.md'')]\<rparr>"

text \<open>A splitter that leaves every document whole.\<close>

definition whole_splitter :: "nat \<Rightarrow> nat \<Rightarrow> document list \<Rightarrow> document list" where
  "whole_splitter chunk_size chunk_overlap documents = documents"

text \<open>
  Three texts for the splitter: 2500 letters without whitespace; 600 letters, a space and
  600 letters; a word between two spaces.
\<close>

definition long_document :: document where
  "long_document =
     \<lparr>page_content = replicate 2500 (CHR ''a''), metadata = [(''source'', ''/app/data/CV/resume.txt'')]\<rparr>"

definition spaced_document :: document where
  "spaced_document =
     \<lparr>page_content = replicate 600 (CHR ''a'') @ '' '' @ replicate 600 (CHR ''b''),
      metadata = [(''source'', ''/app/data/CV/resume.txt'')]\<rparr>"

definition padded_document :: document where
  "padded_document =
     \<lparr>page_content = '' hello '', metadata = [(''source'', ''/app/data/CV/resume.txt'')]\<rparr>"

text \<open>A CV directory with a PDF that cannot be read and a text file; no other directory.\<close>

definition cv_filesystem :: filesystem where
  "cv_filesystem =
     \<lparr>isdir = (\<lambda>d. d = ''/app/data/CV''),
      walk = (\<lambda>d. if d = ''/app/data/CV''
                   then [(''/app/data/CV'', [], [''broken.pdf'', ''resume.txt''])] else []),
      load = (\<lambda>k p. if p = ''/app/data/CV/resume.txt''
                     then Inr [resume_document] else Inl (Exception ''corrupt file''))\<rparr>"

definition empty_filesystem :: filesystem where
  "empty_filesystem = \<lparr>isdir = (\<lambda>_. False), walk = (\<lambda>_. []), load = (\<lambda>_ _. Inr [])\<rparr>"

section \<open>Properties\<close>

lemma calls_of_append: "calls_of (xs @ ys) = calls_of xs @ calls_of ys"
  by (induction xs rule: calls_of.induct) simp_all

lemma io_bind_Inl: "io_bind (evs, Inl e) f = (evs, Inl e)"
  by (simp add: io_bind_def)

lemma io_bind_Inr: "io_bind (evs, Inr x) f = (evs @ fst (f x), snd (f x))"
  by (simp add: io_bind_def split: prod.splits)

lemma io_bind_print: "io_bind (io_print ev) f = (ev # fst (f ()), snd (f ()))"
  by (simp add: io_print_def io_bind_Inr)

lemma io_bind_return: "io_bind (io_return x) f = f x"
  by (simp add: io_return_def io_bind_Inr)

text \<open>
  Claim C5. For a path that is not a directory, the loader prints the warning and returns the
  empty list; it does not raise.
\<close>

theorem missing_directory_loads_nothing: "\<not> isdir fs directory \<Longrightarrow>
  load_documents_from_directory fs directory = ([Warn_directory_missing directory], Inr [])"
  by (simp add: load_documents_from_directory_def io_bind_print io_return_def)

lemma load_file_ok:
  assumes "LOADER_MAPPING (lower (splitext_ext file_name)) = Some k"
    and "load fs k (path_join dirpath file_name) = Inr docs"
  shows "load_file fs dirpath all_docs file_name =
           ([Loading k (path_join dirpath file_name)], Inr (all_docs @ docs))"
  using assms by (simp add: load_file_def io_try_def io_load_def io_bind_Inr io_return_def)

lemma load_file_failed:
  assumes "LOADER_MAPPING (lower (splitext_ext file_name)) = Some k"
    and "load fs k (path_join dirpath file_name) = Inl e" and "is_Exception e"
  shows "load_file fs dirpath all_docs file_name =
           ([Loading k (path_join dirpath file_name),
             Error_loading_file (path_join dirpath file_name) e], Inr all_docs)"
  using assms by (simp add: load_file_def Let_def io_try_def io_load_def io_bind_Inl io_bind_print io_return_def)

lemma load_file_skipped:
  assumes "LOADER_MAPPING (lower (splitext_ext file_name)) = None"
  shows "load_file fs dirpath all_docs file_name = ([], Inr all_docs)"
  using assms by (simp add: load_file_def io_return_def)

text \<open>
  Claim C6. In a directory with two files with registered extensions, listed in either order,
  where the loader of one raises an exception and the loader of the other returns documents,
  the loader runs on both files, prints the error for the failing one, and returns exactly
  the documents of the other.
\<close>

theorem corrupt_file_skipped_valid_file_loaded:
  assumes "isdir fs directory"
    and "walk fs directory = [(dirpath, dirnames, files)]"
    and "files = [bad, good] \<or> files = [good, bad]"
    and "LOADER_MAPPING (lower (splitext_ext bad)) = Some bad_loader"
    and "LOADER_MAPPING (lower (splitext_ext good)) = Some good_loader"
    and "load fs bad_loader (path_join dirpath bad) = Inl e"
    and "is_Exception e"
    and "load fs good_loader (path_join dirpath good) = Inr docs"
  shows "load_documents_from_directory fs directory =
          ((if files = [bad, good]
            then [Loading bad_loader (path_join dirpath bad),
                  Error_loading_file (path_join dirpath bad) e,
                  Loading good_loader (path_join dirpath good)]
            else [Loading good_loader (path_join dirpath good),
                  Loading bad_loader (path_join dirpath bad),
                  Error_loading_file (path_join dirpath bad) e])
           @ [Loaded_documents (length docs) directory], Inr docs)"
proof -
  have bad: "load_file fs dirpath acc bad =
      ([Loading bad_loader (path_join dirpath bad),
        Error_loading_file (path_join dirpath bad) e], Inr acc)" for acc
    using assms(4,6,7) by (rule load_file_failed)
  have good: "load_file fs dirpath acc good =
      ([Loading good_loader (path_join dirpath good)], Inr (acc @ docs))" for acc
    using assms(5,8) by (rule load_file_ok)
  from assms(3) show ?thesis
  proof
    assume "files = [bad, good]"
    then show ?thesis
      using assms(1,2)
      by (simp add: load_documents_from_directory_def bad good io_bind_Inr io_bind_print io_return_def)
  next
    assume f: "files = [good, bad]"
    have "bad \<noteq> good" using assms(4,5,6,8) by auto
    then show ?thesis
      using assms(1,2) f
      by (simp add: load_documents_from_directory_def bad good io_bind_Inr io_bind_print io_return_def)
  qed
qed

lemma embed_chunks_result:
  "embed_chunks r valid_chunks =
     (case new_embeddings r ''models/text-embedding-004'' of
        Some e \<Rightarrow>
          ([Initialising_embeddings, Called (NewEmbeddings ''models/text-embedding-004'')]
             @ (if is_Exception e then [Error_generating_embeddings e] else []), Inl e)
      | None \<Rightarrow>
          (case embed_documents r (map page_content valid_chunks) of
             Inl e \<Rightarrow>
               ([Initialising_embeddings, Called (NewEmbeddings ''models/text-embedding-004''),
                 Sending_chunks (length valid_chunks),
                 Called (EmbedDocuments (map page_content valid_chunks))]
                  @ (if is_Exception e then [Error_generating_embeddings e] else []), Inl e)
           | Inr vs \<Rightarrow>
               ([Initialising_embeddings, Called (NewEmbeddings ''models/text-embedding-004''),
                 Sending_chunks (length valid_chunks),
                 Called (EmbedDocuments (map page_content valid_chunks)),
                 Vectors_generated (length vs)],
                Inr (map page_content valid_chunks, map metadata valid_chunks, vs))))"
  by (simp add: embed_chunks_def Let_def io_try_def io_bind_def io_print_def io_call_def
      io_call_unit_def io_return_def io_raise_def split: option.splits sum.splits)

lemma ensure_collection_result:
  "ensure_collection r name vector_size =
     (case get_collection r name of
        Inr d \<Rightarrow> ([Called (GetCollection name), Collection_exists name], Inr ())
      | Inl e \<Rightarrow>
          if is_Exception e
          then ([Called (GetCollection name), Collection_missing name vector_size,
                 Called (RecreateCollection name vector_size COSINE)],
                case recreate_collection r name vector_size COSINE of
                  None \<Rightarrow> Inr () | Some e' \<Rightarrow> Inl e')
          else ([Called (GetCollection name)], Inl e))"
  by (simp add: ensure_collection_def io_try_def io_bind_def io_print_def io_call_def
      io_call_unit_def split: option.splits sum.splits)

lemma store_points_result:
  "store_points r cfg valid_chunks texts metadatas vs =
   (case new_client r (QDRANT_HOST cfg) (QDRANT_PORT cfg) of
      Some e \<Rightarrow> ([Called (NewQdrantClient (QDRANT_HOST cfg) (QDRANT_PORT cfg))], Inl e)
    | None \<Rightarrow>
       (case vs of
          [] \<Rightarrow> ([Called (NewQdrantClient (QDRANT_HOST cfg) (QDRANT_PORT cfg))], Inl IndexError)
        | v # _ \<Rightarrow>
           (case ensure_collection r (COLLECTION_NAME cfg) (length v) of
              (evs, Inl e) \<Rightarrow>
                (Called (NewQdrantClient (QDRANT_HOST cfg) (QDRANT_PORT cfg)) # evs, Inl e)
            | (evs, Inr _) \<Rightarrow>
                (Called (NewQdrantClient (QDRANT_HOST cfg) (QDRANT_PORT cfg)) # evs @
                   [Uploading_points,
                    Called (Upsert (COLLECTION_NAME cfg) (make_batch valid_chunks texts metadatas vs) True)]
                   @ (case upsert r (COLLECTION_NAME cfg) (make_batch valid_chunks texts metadatas vs) True of
                        Some e \<Rightarrow> [] | None \<Rightarrow> [Ingestion_completed]),
                 case upsert r (COLLECTION_NAME cfg) (make_batch valid_chunks texts metadatas vs) True of
                   Some e \<Rightarrow> Inl e | None \<Rightarrow> Inr ()))))"
  by (simp add: store_points_def first_vector_size_def io_bind_def io_print_def io_call_unit_def
      io_return_def io_raise_def split: option.splits sum.splits list.splits prod.splits)

lemma generate_valid:
  assumes "filter is_valid_chunk chunks \<noteq> []"
  shows "generate_and_store_embeddings r cfg chunks =
     io_bind (io_print (Valid_chunks (length (filter is_valid_chunk chunks)))) (\<lambda>_.
     io_bind (embed_chunks r (filter is_valid_chunk chunks)) (\<lambda>(texts, metadatas, vectors).
       store_points r cfg (filter is_valid_chunk chunks) texts metadatas vectors))"
proof -
  from assms have "chunks \<noteq> []" by auto
  with assms show ?thesis
    by (simp add: generate_and_store_embeddings_def Let_def)
qed

lemma generate_no_valid:
  assumes "filter is_valid_chunk chunks = []"
  shows "generate_and_store_embeddings r cfg chunks = ([], Inr ())"
  using assms by (simp add: generate_and_store_embeddings_def Let_def io_return_def)

lemma generate_embedded:
  assumes "filter is_valid_chunk chunks \<noteq> []"
    and "new_embeddings r ''models/text-embedding-004'' = None"
    and "embed_documents r (map page_content (filter is_valid_chunk chunks)) = Inr vs"
  shows "generate_and_store_embeddings r cfg chunks =
     ([Valid_chunks (length (filter is_valid_chunk chunks)),
       Initialising_embeddings, Called (NewEmbeddings ''models/text-embedding-004''),
       Sending_chunks (length (filter is_valid_chunk chunks)),
       Called (EmbedDocuments (map page_content (filter is_valid_chunk chunks))),
       Vectors_generated (length vs)]
      @ fst (store_points r cfg (filter is_valid_chunk chunks)
               (map page_content (filter is_valid_chunk chunks))
               (map metadata (filter is_valid_chunk chunks)) vs),
      snd (store_points r cfg (filter is_valid_chunk chunks)
               (map page_content (filter is_valid_chunk chunks))
               (map metadata (filter is_valid_chunk chunks)) vs))"
  using assms by (simp add: generate_valid embed_chunks_result io_bind_Inr io_bind_print)

lemma calls_of_load_file: "calls_of (fst (load_file fs dirpath acc f)) = []"
  by (simp add: load_file_def Let_def io_try_def io_load_def io_bind_def io_print_def io_return_def
      split: option.splits sum.splits)

lemma calls_of_io_bind:
  "calls_of (fst (io_bind m f)) =
     calls_of (fst m) @ (case snd m of Inl e \<Rightarrow> [] | Inr x \<Rightarrow> calls_of (fst (f x)))"
  by (cases m) (simp add: io_bind_def calls_of_append split: sum.splits prod.splits)

lemma calls_of_load_files: "calls_of (fst (load_files fs dirpath acc files)) = []"
  by (induction files arbitrary: acc)
     (simp_all add: calls_of_io_bind calls_of_load_file io_return_def split: sum.splits)

lemma calls_of_load_walk: "calls_of (fst (load_walk fs acc entries)) = []"
  by (induction entries arbitrary: acc)
     (auto simp: calls_of_io_bind calls_of_load_files io_return_def split: sum.splits)

lemma calls_of_load_documents: "calls_of (fst (load_documents_from_directory fs d)) = []"
  by (simp add: load_documents_from_directory_def calls_of_io_bind calls_of_load_walk
      io_print_def io_return_def split: sum.splits)

lemma calls_of_split_documents: "calls_of (fst (split_documents splitter docs)) = []"
  by (simp add: split_documents_def Let_def calls_of_io_bind io_print_def io_return_def)

lemma flow_loaded:
  assumes "snd (load_documents_from_directory fs cv_dir) = Inr d1"
    and "snd (load_documents_from_directory fs projects_dir) = Inr d2"
    and "snd (load_documents_from_directory fs repos_dir) = Inr d3"
  shows "snd (data_ingestion_flow fs splitter r cfg cv_dir projects_dir repos_dir) =
           (if d1 @ d2 @ d3 \<noteq> []
            then snd (io_bind (split_documents splitter (d1 @ d2 @ d3)) (generate_and_store_embeddings r cfg))
            else Inr ())"
    and "calls_of (fst (data_ingestion_flow fs splitter r cfg cv_dir projects_dir repos_dir)) =
           (if d1 @ d2 @ d3 \<noteq> []
            then calls_of (fst (io_bind (split_documents splitter (d1 @ d2 @ d3)) (generate_and_store_embeddings r cfg)))
            else [])"
proof -
  obtain e1 e2 e3 where l:
    "load_documents_from_directory fs cv_dir = (e1, Inr d1)"
    "load_documents_from_directory fs projects_dir = (e2, Inr d2)"
    "load_documents_from_directory fs repos_dir = (e3, Inr d3)"
    using assms by (metis prod.collapse)
  have c: "calls_of e1 = []" "calls_of e2 = []" "calls_of e3 = []"
    using calls_of_load_documents[of fs cv_dir] calls_of_load_documents[of fs projects_dir]
      calls_of_load_documents[of fs repos_dir] l by simp_all
  show "snd (data_ingestion_flow fs splitter r cfg cv_dir projects_dir repos_dir) =
           (if d1 @ d2 @ d3 \<noteq> []
            then snd (io_bind (split_documents splitter (d1 @ d2 @ d3)) (generate_and_store_embeddings r cfg))
            else Inr ())"
    by (simp add: data_ingestion_flow_def l Let_def io_bind_Inr io_bind_print io_print_def)
  show "calls_of (fst (data_ingestion_flow fs splitter r cfg cv_dir projects_dir repos_dir)) =
           (if d1 @ d2 @ d3 \<noteq> []
            then calls_of (fst (io_bind (split_documents splitter (d1 @ d2 @ d3)) (generate_and_store_embeddings r cfg)))
            else [])"
    by (simp add: data_ingestion_flow_def l c Let_def io_bind_Inr io_bind_print io_print_def calls_of_append)
qed

text \<open>
  Claim C7. When each of the three directories yields the empty document list, the flow ends
  normally and has made no request to the embedding provider or to Qdrant: nothing is
  written and no collection is created.
\<close>

theorem no_documents_no_remote_request:
  assumes "snd (load_documents_from_directory fs cv_dir) = Inr []"
    and "snd (load_documents_from_directory fs projects_dir) = Inr []"
    and "snd (load_documents_from_directory fs repos_dir) = Inr []"
  shows "snd (data_ingestion_flow fs splitter r cfg cv_dir projects_dir repos_dir) = Inr () \<and>
         calls_of (fst (data_ingestion_flow fs splitter r cfg cv_dir projects_dir repos_dir)) = []"
  using flow_loaded[OF assms, of splitter r cfg] by simp

lemma generate_embed_fails:
  assumes "filter is_valid_chunk chunks \<noteq> []"
    and "new_embeddings r ''models/text-embedding-004'' = None"
    and "embed_documents r (map page_content (filter is_valid_chunk chunks)) = Inl e"
  shows "generate_and_store_embeddings r cfg chunks =
     ([Valid_chunks (length (filter is_valid_chunk chunks)),
       Initialising_embeddings, Called (NewEmbeddings ''models/text-embedding-004''),
       Sending_chunks (length (filter is_valid_chunk chunks)),
       Called (EmbedDocuments (map page_content (filter is_valid_chunk chunks)))]
      @ (if is_Exception e then [Error_generating_embeddings e] else []), Inl e)"
  using assms by (simp add: generate_valid embed_chunks_result io_bind_Inl io_bind_print)

text \<open>
  Claim C8. When the embedding request raises, the flow ends with that same exception, and
  the requests it made are the construction of the embedding client and one single
  embedding request: no second attempt and no request to Qdrant.
\<close>

theorem embedding_failure_reraised_without_retry:
  assumes "snd (load_documents_from_directory fs cv_dir) = Inr d1"
    and "snd (load_documents_from_directory fs projects_dir) = Inr d2"
    and "snd (load_documents_from_directory fs repos_dir) = Inr d3"
    and "d1 @ d2 @ d3 \<noteq> []"
    and "snd (split_documents splitter (d1 @ d2 @ d3)) = Inr chunks"
    and "filter is_valid_chunk chunks \<noteq> []"
    and "new_embeddings r ''models/text-embedding-004'' = None"
    and "embed_documents r (map page_content (filter is_valid_chunk chunks)) = Inl e"
  shows "snd (data_ingestion_flow fs splitter r cfg cv_dir projects_dir repos_dir) = Inl e \<and>
         calls_of (fst (data_ingestion_flow fs splitter r cfg cv_dir projects_dir repos_dir)) =
           [NewEmbeddings ''models/text-embedding-004'',
            EmbedDocuments (map page_content (filter is_valid_chunk chunks))]"
proof -
  obtain evs where s: "split_documents splitter (d1 @ d2 @ d3) = (evs, Inr chunks)"
    using assms(5) by (metis prod.collapse)
  have c: "calls_of evs = []"
    using calls_of_split_documents[of splitter "d1 @ d2 @ d3"] s by simp
  note g = generate_embed_fails[OF assms(6,7,8), of cfg]
  show ?thesis
    using flow_loaded[OF assms(1,2,3), of splitter r cfg] assms(4)
    by (simp add: s c g io_bind_Inr calls_of_append)
qed

text \<open>
  Claim C1, as amended. The embedding stage (lines 71 to 86) checks nothing about what the
  provider returns: when the provider answers with a list of vectors, the stage returns
  exactly that list, whatever the number of vectors and whatever their lengths; when the
  construction of the client or the request raises, that same exception is the result.
  No other error can come out of the stage.
\<close>

theorem embedding_stage_returns_provider_answer_unchecked:
  "snd (embed_chunks r valid_chunks) =
     (case new_embeddings r ''models/text-embedding-004'' of
        Some e \<Rightarrow> Inl e
      | None \<Rightarrow>
          (case embed_documents r (map page_content valid_chunks) of
             Inl e \<Rightarrow> Inl e
           | Inr vs \<Rightarrow> Inr (map page_content valid_chunks, map metadata valid_chunks, vs)))"
  by (simp add: embed_chunks_result split: option.splits sum.splits)

lemma calls_of_ensure_collection:
  "calls_of (fst (ensure_collection r name n)) =
     GetCollection name #
       (case get_collection r name of
          Inr d \<Rightarrow> []
        | Inl e \<Rightarrow> if is_Exception e then [RecreateCollection name n COSINE] else [])"
  by (simp add: ensure_collection_result split: sum.splits)

lemma snd_ensure_collection:
  "snd (ensure_collection r name n) =
       (case get_collection r name of
          Inr d \<Rightarrow> Inr ()
        | Inl e \<Rightarrow> if is_Exception e
                   then (case recreate_collection r name n COSINE of None \<Rightarrow> Inr () | Some e' \<Rightarrow> Inl e')
                   else Inl e)"
  by (simp add: ensure_collection_result split: sum.splits)

lemma calls_of_generate_embedded:
  assumes "filter is_valid_chunk chunks \<noteq> []"
    and "new_embeddings r ''models/text-embedding-004'' = None"
    and "embed_documents r (map page_content (filter is_valid_chunk chunks)) = Inr (v # vs)"
    and "new_client r (QDRANT_HOST cfg) (QDRANT_PORT cfg) = None"
  shows "calls_of (fst (generate_and_store_embeddings r cfg chunks)) =
     [NewEmbeddings ''models/text-embedding-004'',
      EmbedDocuments (map page_content (filter is_valid_chunk chunks)),
      NewQdrantClient (QDRANT_HOST cfg) (QDRANT_PORT cfg),
      GetCollection (COLLECTION_NAME cfg)]
     @ (case get_collection r (COLLECTION_NAME cfg) of
          Inr descriptor \<Rightarrow>
            [Upsert (COLLECTION_NAME cfg)
               (make_batch (filter is_valid_chunk chunks)
                  (map page_content (filter is_valid_chunk chunks))
                  (map metadata (filter is_valid_chunk chunks)) (v # vs)) True]
        | Inl e \<Rightarrow>
            if is_Exception e
            then RecreateCollection (COLLECTION_NAME cfg) (length v) COSINE #
                   (case recreate_collection r (COLLECTION_NAME cfg) (length v) COSINE of
                      None \<Rightarrow>
                        [Upsert (COLLECTION_NAME cfg)
                           (make_batch (filter is_valid_chunk chunks)
                              (map page_content (filter is_valid_chunk chunks))
                              (map metadata (filter is_valid_chunk chunks)) (v # vs)) True]
                    | Some e' \<Rightarrow> [])
            else [])"
proof -
  obtain evs res where e: "ensure_collection r (COLLECTION_NAME cfg) (length v) = (evs, res)"
    by (cases "ensure_collection r (COLLECTION_NAME cfg) (length v)")
  have c: "calls_of evs = GetCollection (COLLECTION_NAME cfg) #
       (case get_collection r (COLLECTION_NAME cfg) of
          Inr d \<Rightarrow> []
        | Inl e \<Rightarrow> if is_Exception e then [RecreateCollection (COLLECTION_NAME cfg) (length v) COSINE] else [])"
    using calls_of_ensure_collection[of r "COLLECTION_NAME cfg" "length v"] e by simp
  have s: "res =
       (case get_collection r (COLLECTION_NAME cfg) of
          Inr d \<Rightarrow> Inr ()
        | Inl e \<Rightarrow> if is_Exception e
                   then (case recreate_collection r (COLLECTION_NAME cfg) (length v) COSINE of None \<Rightarrow> Inr () | Some e' \<Rightarrow> Inl e')
                   else Inl e)"
    using snd_ensure_collection[of r "COLLECTION_NAME cfg" "length v"] e by simp
  show ?thesis
    unfolding generate_embedded[OF assms(1,2,3)] store_points_result
    by (simp add: assms(4) e c s calls_of_append split: sum.splits option.splits)
qed

text \<open>
  Claim C4. Once the vectors are there and the client is built, the requests of the run are,
  in this order: the lookup of the collection; then, if the lookup returned a descriptor,
  the upsert and nothing else (the descriptor is not inspected, whatever vector size it
  carries); if the lookup raised, the creation of the collection with the length of the
  first vector as size and the COSINE distance, followed by the upsert when the creation
  succeeded.
\<close>

theorem collection_looked_up_then_trusted_or_created:
  assumes "filter is_valid_chunk chunks \<noteq> []"
    and "new_embeddings r ''models/text-embedding-004'' = None"
    and "embed_documents r (map page_content (filter is_valid_chunk chunks)) = Inr (v # vs)"
    and "new_client r (QDRANT_HOST cfg) (QDRANT_PORT cfg) = None"
  shows "calls_of (fst (generate_and_store_embeddings r cfg chunks)) =
     [NewEmbeddings ''models/text-embedding-004'',
      EmbedDocuments (map page_content (filter is_valid_chunk chunks)),
      NewQdrantClient (QDRANT_HOST cfg) (QDRANT_PORT cfg),
      GetCollection (COLLECTION_NAME cfg)]
     @ (case get_collection r (COLLECTION_NAME cfg) of
          Inr descriptor \<Rightarrow>
            [Upsert (COLLECTION_NAME cfg)
               (make_batch (filter is_valid_chunk chunks)
                  (map page_content (filter is_valid_chunk chunks))
                  (map metadata (filter is_valid_chunk chunks)) (v # vs)) True]
        | Inl e \<Rightarrow>
            if is_Exception e
            then RecreateCollection (COLLECTION_NAME cfg) (length v) COSINE #
                   (case recreate_collection r (COLLECTION_NAME cfg) (length v) COSINE of
                      None \<Rightarrow>
                        [Upsert (COLLECTION_NAME cfg)
                           (make_batch (filter is_valid_chunk chunks)
                              (map page_content (filter is_valid_chunk chunks))
                              (map metadata (filter is_valid_chunk chunks)) (v # vs)) True]
                    | Some e' \<Rightarrow> [])
            else [])"
  using assms by (rule calls_of_generate_embedded)

text \<open>
  Claim C10. With at least one valid chunk, a provider that answered and a client that was
  built, the read of the first vector succeeds, and the run goes on to look the collection
  up, exactly when the provider returned at least one vector; with an empty answer the run
  ends with IndexError right after building the client.
\<close>

theorem first_vector_read_fails_iff_no_vectors:
  assumes "filter is_valid_chunk chunks \<noteq> []"
    and "new_embeddings r ''models/text-embedding-004'' = None"
    and "embed_documents r (map page_content (filter is_valid_chunk chunks)) = Inr vs"
    and "new_client r (QDRANT_HOST cfg) (QDRANT_PORT cfg) = None"
  shows "(GetCollection (COLLECTION_NAME cfg) \<in> set (calls_of (fst (generate_and_store_embeddings r cfg chunks))))
           = (vs \<noteq> [])
       \<and> (snd (generate_and_store_embeddings r cfg chunks) = Inl IndexError \<and>
          calls_of (fst (generate_and_store_embeddings r cfg chunks)) =
            [NewEmbeddings ''models/text-embedding-004'',
             EmbedDocuments (map page_content (filter is_valid_chunk chunks)),
             NewQdrantClient (QDRANT_HOST cfg) (QDRANT_PORT cfg)])
           = (vs = [])"
proof (cases vs)
  case Nil
  then show ?thesis
    unfolding generate_embedded[OF assms(1,2,3)] store_points_result
    by (simp add: assms(4))
next
  case (Cons v vs')
  show ?thesis
    using calls_of_generate_embedded[OF assms(1,2) assms(3)[unfolded Cons] assms(4)] Cons by simp
qed

lemma payloads_of_chunks:
  "map make_payload (zip (map page_content cs) (map metadata cs)) =
     map (\<lambda>c. [(''page_content'', Str (page_content c)), (''metadata'', Dict (metadata c))]) cs"
  by (induction cs) (simp_all add: make_payload_def)

lemma calls_of_store_points:
  "set (calls_of (fst (store_points r cfg valid_chunks texts metadatas vs))) \<subseteq>
     {NewQdrantClient (QDRANT_HOST cfg) (QDRANT_PORT cfg), GetCollection (COLLECTION_NAME cfg),
      Upsert (COLLECTION_NAME cfg) (make_batch valid_chunks texts metadatas vs) True}
     \<union> range (\<lambda>k. RecreateCollection (COLLECTION_NAME cfg) k COSINE)"
proof (cases vs)
  case Nil
  then show ?thesis
    by (simp add: store_points_result split: option.splits)
next
  case (Cons v vs')
  obtain evs res where e: "ensure_collection r (COLLECTION_NAME cfg) (length v) = (evs, res)"
    by (cases "ensure_collection r (COLLECTION_NAME cfg) (length v)")
  have c: "set (calls_of evs) \<subseteq>
      {GetCollection (COLLECTION_NAME cfg), RecreateCollection (COLLECTION_NAME cfg) (length v) COSINE}"
    using calls_of_ensure_collection[of r "COLLECTION_NAME cfg" "length v"] e
    by (auto split: sum.splits if_splits)
  show ?thesis
    using c
    by (auto simp: store_points_result Cons e calls_of_append split: option.splits sum.splits)
qed

lemma upsert_issued:
  assumes "Upsert name b w \<in> set (calls_of (fst (generate_and_store_embeddings r cfg chunks)))"
  shows "filter is_valid_chunk chunks \<noteq> [] \<and> name = COLLECTION_NAME cfg \<and> w \<and>
         (\<exists>vs. embed_documents r (map page_content (filter is_valid_chunk chunks)) = Inr vs \<and>
               b = make_batch (filter is_valid_chunk chunks)
                     (map page_content (filter is_valid_chunk chunks))
                     (map metadata (filter is_valid_chunk chunks)) vs)"
proof (cases "filter is_valid_chunk chunks = []")
  case True
  then show ?thesis using assms by (simp add: generate_no_valid)
next
  case valid: False
  show ?thesis
  proof (cases "new_embeddings r ''models/text-embedding-004''")
    case (Some e)
    then show ?thesis
      using assms valid
      by (simp add: generate_valid embed_chunks_result io_bind_Inl io_bind_print split: if_splits)
  next
    case None
    show ?thesis
    proof (cases "embed_documents r (map page_content (filter is_valid_chunk chunks))")
      case (Inl e)
      then show ?thesis
        using assms by (simp add: generate_embed_fails[OF valid None Inl] split: if_splits)
    next
      case (Inr vs)
      have "Upsert name b w \<in> set (calls_of (fst (store_points r cfg (filter is_valid_chunk chunks)
               (map page_content (filter is_valid_chunk chunks))
               (map metadata (filter is_valid_chunk chunks)) vs)))"
        using assms by (simp add: generate_embedded[OF valid None Inr] calls_of_append)
      then have "name = COLLECTION_NAME cfg \<and> w \<and>
          b = make_batch (filter is_valid_chunk chunks)
                     (map page_content (filter is_valid_chunk chunks))
                     (map metadata (filter is_valid_chunk chunks)) vs"
        using calls_of_store_points[of r cfg "filter is_valid_chunk chunks"
            "map page_content (filter is_valid_chunk chunks)"
            "map metadata (filter is_valid_chunk chunks)" vs]
        by auto
      then show ?thesis using valid Inr by simp
    qed
  qed
qed

lemma strip_nonempty: "is_valid_chunk c \<Longrightarrow> strip (page_content c) \<noteq> []"
  by (simp add: is_valid_chunk_def)

text \<open>
  Claim C9. In every upsert issued by a run, the payloads are, position by position, the
  dictionaries with keys \<open>page_content\<close> and \<open>metadata\<close> holding the text and the metadata of the
  valid chunks, and the stripped \<open>page_content\<close> of each payload is not empty.
\<close>

theorem upsert_payloads_are_valid_chunks:
  assumes "Upsert name b w \<in> set (calls_of (fst (generate_and_store_embeddings r cfg chunks)))"
  shows "batch_payloads b =
           map (\<lambda>c. [(''page_content'', Str (page_content c)), (''metadata'', Dict (metadata c))])
             (filter is_valid_chunk chunks)
       \<and> batch_ids b = [0..<length (filter is_valid_chunk chunks)]
       \<and> (\<forall>p \<in> set (batch_payloads b).
            \<exists>t m. p = [(''page_content'', Str t), (''metadata'', Dict m)] \<and> strip t \<noteq> [])"
proof -
  from upsert_issued[OF assms] obtain vs where
    b: "b = make_batch (filter is_valid_chunk chunks)
              (map page_content (filter is_valid_chunk chunks))
              (map metadata (filter is_valid_chunk chunks)) vs"
    by blast
  have p: "batch_payloads b =
           map (\<lambda>c. [(''page_content'', Str (page_content c)), (''metadata'', Dict (metadata c))])
             (filter is_valid_chunk chunks)"
    by (simp add: b make_batch_def payloads_of_chunks)
  have i: "batch_ids b = [0..<length (filter is_valid_chunk chunks)]"
    by (simp add: b make_batch_def)
  have "\<exists>t m. p = [(''page_content'', Str t), (''metadata'', Dict m)] \<and> strip t \<noteq> []"
    if "p \<in> set (batch_payloads b)" for p
  proof -
    from that obtain c where "c \<in> set chunks" "is_valid_chunk c"
      and "p = [(''page_content'', Str (page_content c)), (''metadata'', Dict (metadata c))]"
      unfolding p by auto
    then show ?thesis using strip_nonempty by blast
  qed
  with p i show ?thesis by blast
qed

lemma fold_update:
  "foldl (\<lambda>m (k, v). m(k \<mapsto> v)) m xs = m ++ map_of (rev xs)"
  by (induction xs arbitrary: m) (auto simp: map_add_upd_left fun_eq_iff map_add_def split: option.splits)

lemma store_upsert_map_add:
  "store_upsert pts b =
     pts ++ map_of (rev (zip (batch_ids b) (zip (batch_vectors b) (batch_payloads b))))"
proof -
  have "(\<lambda>m (i, v, p). m(i \<mapsto> (v, p))) = (\<lambda>m (k, vp). (m :: points)(k \<mapsto> vp))"
    by (auto simp: fun_eq_iff)
  then show ?thesis by (simp add: store_upsert_def fold_update)
qed

lemma dom_store_upsert:
  assumes "length (batch_vectors b) = length (batch_ids b)"
    and "length (batch_payloads b) = length (batch_ids b)"
  shows "dom (store_upsert pts b) = dom pts \<union> set (batch_ids b)"
proof -
  have "fst ` set (zip (batch_ids b) (zip (batch_vectors b) (batch_payloads b))) =
      set (map fst (zip (batch_ids b) (zip (batch_vectors b) (batch_payloads b))))"
    by (simp only: set_map)
  also have "\<dots> = set (batch_ids b)"
    using assms by simp
  finally show ?thesis
    by (simp add: store_upsert_map_add dom_map_of_conv_image_fst Un_commute)
qed

lemma store_upsert_at:
  assumes "length (batch_vectors b) = length (batch_ids b)"
    and "length (batch_payloads b) = length (batch_ids b)"
    and "distinct (batch_ids b)" and "i < length (batch_ids b)"
  shows "store_upsert pts b (batch_ids b ! i) = Some (batch_vectors b ! i, batch_payloads b ! i)"
proof -
  let ?xs = "zip (batch_ids b) (zip (batch_vectors b) (batch_payloads b))"
  have d: "distinct (map fst ?xs)" using assms by simp
  have "(batch_ids b ! i, batch_vectors b ! i, batch_payloads b ! i) \<in> set (rev ?xs)"
    using assms by (auto simp: set_zip)
  moreover have "distinct (map fst (rev ?xs))"
    using d by (simp add: rev_map[symmetric] del: map_fst_zip)
  ultimately have "map_of (rev ?xs) (batch_ids b ! i) = Some (batch_vectors b ! i, batch_payloads b ! i)"
    by (rule map_of_is_SomeI[rotated])
  then show ?thesis by (simp add: store_upsert_map_add)
qed

text \<open>
  Claim C3. Whenever a run issues its upsert, the identifiers of the batch are
  \<open>0, ..., n - 1\<close> for the \<open>n\<close> valid chunks, and the payload at position \<open>i\<close> is built
  from the \<open>i\<close>-th valid chunk. A second run on the same chunks, whatever the provider and the
  store answer, issues the same identifiers and the same payloads. When each run's batch has
  one vector per identifier, applying the second upsert to the points left by the first adds
  no identifier (replace, not append), and every identifier below \<open>n\<close> then holds the
  payload of its chunk.
\<close>

theorem point_ids_positional_and_rerun_replaces:
  assumes "Upsert name1 b1 w1 \<in> set (calls_of (fst (generate_and_store_embeddings r1 cfg chunks)))"
    and "Upsert name2 b2 w2 \<in> set (calls_of (fst (generate_and_store_embeddings r2 cfg chunks)))"
    and "length (batch_vectors b1) = length (batch_ids b1)"
    and "length (batch_vectors b2) = length (batch_ids b2)"
  shows "batch_ids b1 = [0..<length (filter is_valid_chunk chunks)]
       \<and> batch_payloads b1 = map (\<lambda>c. make_payload (page_content c, metadata c)) (filter is_valid_chunk chunks)
       \<and> name2 = name1 \<and> batch_ids b2 = batch_ids b1 \<and> batch_payloads b2 = batch_payloads b1
       \<and> dom (store_upsert (store_upsert pts b1) b2) = dom (store_upsert pts b1)
       \<and> dom (store_upsert pts b1) = dom pts \<union> {0..<length (filter is_valid_chunk chunks)}
       \<and> (\<forall>i < length (filter is_valid_chunk chunks).
            map_option snd (store_upsert (store_upsert pts b1) b2 i) =
              Some (make_payload (page_content (filter is_valid_chunk chunks ! i),
                                  metadata (filter is_valid_chunk chunks ! i))))"
proof -
  let ?valid = "filter is_valid_chunk chunks"
  from upsert_issued[OF assms(1)] obtain vs1 where
    n1: "name1 = COLLECTION_NAME cfg" and
    b1: "b1 = make_batch ?valid (map page_content ?valid) (map metadata ?valid) vs1"
    by blast
  from upsert_issued[OF assms(2)] obtain vs2 where
    n2: "name2 = COLLECTION_NAME cfg" and
    b2: "b2 = make_batch ?valid (map page_content ?valid) (map metadata ?valid) vs2"
    by blast
  have pay: "map make_payload (zip (map page_content ?valid) (map metadata ?valid)) =
      map (\<lambda>c. make_payload (page_content c, metadata c)) ?valid"
    by (simp add: payloads_of_chunks make_payload_def)
  have i1: "batch_ids b1 = [0..<length ?valid]" and i2: "batch_ids b2 = [0..<length ?valid]"
    by (simp_all add: b1 b2 make_batch_def)
  have p1: "batch_payloads b1 = map (\<lambda>c. make_payload (page_content c, metadata c)) ?valid"
    and p2: "batch_payloads b2 = map (\<lambda>c. make_payload (page_content c, metadata c)) ?valid"
    by (simp_all add: b1 b2 make_batch_def pay)
  have l1: "length (batch_payloads b1) = length (batch_ids b1)"
    and l2: "length (batch_payloads b2) = length (batch_ids b2)"
    by (simp_all add: i1 i2 p1 p2)
  have d1: "dom (store_upsert pts b1) = dom pts \<union> {0..<length ?valid}"
    using dom_store_upsert[OF assms(3) l1, of pts] by (simp add: i1)
  have d2: "dom (store_upsert (store_upsert pts b1) b2) = dom (store_upsert pts b1)"
    using dom_store_upsert[OF assms(4) l2, of "store_upsert pts b1"] by (auto simp: d1 i2)
  have at: "map_option snd (store_upsert (store_upsert pts b1) b2 i) =
      Some (make_payload (page_content (?valid ! i), metadata (?valid ! i)))"
    if "i < length ?valid" for i
  proof -
    have "i < length (batch_ids b2)" using that by (simp add: i2)
    from store_upsert_at[OF assms(4) l2 _ this, of "store_upsert pts b1"]
    show ?thesis using that by (simp add: i2 p2)
  qed
  show ?thesis
    using i1 i2 p1 p2 n1 n2 d1 d2 at by simp
qed

lemma sliding_windows_Nil: "sliding_windows W ov [] = []"
  by (simp add: sliding_windows.simps)

lemma sliding_windows_short:
  "t \<noteq> [] \<Longrightarrow> length t \<le> W \<Longrightarrow> sliding_windows W ov t = [t]"
  by (simp add: sliding_windows.simps[of W ov t])

lemma sliding_windows_long:
  "W < length t \<Longrightarrow> ov < W \<Longrightarrow>
   sliding_windows W ov t = take W t # sliding_windows W ov (drop (W - ov) t)"
  by (auto simp: sliding_windows.simps[of W ov t])

lemma sliding_windows_hd:
  assumes "t \<noteq> []" and "ov < W"
  shows "\<exists>rest. sliding_windows W ov t = take W t # rest"
proof (cases "length t \<le> W")
  case True
  with assms show ?thesis by (simp add: sliding_windows_short)
next
  case False
  with assms show ?thesis by (simp add: sliding_windows_long)
qed

lemma sliding_windows_neighbours:
  assumes "ov < W"
  shows "Suc i < length (sliding_windows W ov t) \<Longrightarrow>
         length (sliding_windows W ov t ! i) = W \<and>
         drop (W - ov) (sliding_windows W ov t ! i) = take ov (sliding_windows W ov t ! Suc i) \<and>
         ov \<le> length (sliding_windows W ov t ! Suc i)"
  using assms
proof (induction W ov t arbitrary: i rule: sliding_windows.induct)
  case (1 W ov t)
  show ?case
  proof (cases "t = [] \<or> length t \<le> W")
    case True
    then have "length (sliding_windows W ov t) \<le> 1"
      by (cases "t = []") (auto simp: sliding_windows_Nil sliding_windows_short)
    with "1.prems"(1) show ?thesis by simp
  next
    case False
    then have long: "W < length t" and ne: "t \<noteq> []" by auto
    let ?t' = "drop (W - ov) t"
    have sw: "sliding_windows W ov t = take W t # sliding_windows W ov ?t'"
      using long "1.prems"(2) by (rule sliding_windows_long)
    have t'_len: "ov < length ?t'" using long "1.prems"(2) by simp
    then have "?t' \<noteq> []" by auto
    then obtain rest where hd': "sliding_windows W ov ?t' = take W ?t' # rest"
      using sliding_windows_hd "1.prems"(2) by blast
    show ?thesis
    proof (cases i)
      case 0
      have a: "length (take W t) = W" using long by simp
      have "drop (W - ov) (take W t) = take ov ?t'"
        using "1.prems"(2) by (simp add: drop_take)
      moreover have "take ov (take W ?t') = take ov ?t'"
        using "1.prems"(2) by (simp add: min_def)
      moreover have "ov \<le> length (take W ?t')"
        using t'_len "1.prems"(2) by simp
      ultimately show ?thesis
        using a 0 by (simp add: sw hd')
    next
      case (Suc j)
      have "Suc j < length (sliding_windows W ov ?t')"
        using "1.prems"(1) Suc by (simp add: sw)
      moreover have "\<not> (length t \<le> W \<or> W \<le> ov)"
        using long "1.prems"(2) by simp
      ultimately have "length (sliding_windows W ov ?t' ! j) = W \<and>
         drop (W - ov) (sliding_windows W ov ?t' ! j) = take ov (sliding_windows W ov ?t' ! Suc j) \<and>
         ov \<le> length (sliding_windows W ov ?t' ! Suc j)"
        using "1.IH"[of j] ne "1.prems"(2) by blast
      then show ?thesis using Suc by (simp add: sw)
    qed
  qed
qed

lemma join_sliding_windows:
  assumes "ov < W"
  shows "join_chunks ov (sliding_windows W ov t) = t"
  using assms
proof (induction W ov t rule: sliding_windows.induct)
  case (1 W ov t)
  show ?case
  proof (cases "t = [] \<or> length t \<le> W")
    case True
    then show ?thesis
      by (cases "t = []") (auto simp: sliding_windows_Nil sliding_windows_short join_chunks_def)
  next
    case False
    then have long: "W < length t" and ne: "t \<noteq> []" by auto
    let ?t' = "drop (W - ov) t"
    have sw: "sliding_windows W ov t = take W t # sliding_windows W ov ?t'"
      using long "1.prems" by (rule sliding_windows_long)
    have t'_len: "ov < length ?t'" using long "1.prems" by simp
    then have "?t' \<noteq> []" by auto
    then obtain rest where hd': "sliding_windows W ov ?t' = take W ?t' # rest"
      using sliding_windows_hd "1.prems" by blast
    have "\<not> (length t \<le> W \<or> W \<le> ov)"
      using long "1.prems" by simp
    then have "join_chunks ov (sliding_windows W ov ?t') = ?t'"
      using "1.IH" ne "1.prems" by blast
    then have j: "take W ?t' @ concat (map (drop ov) rest) = ?t'"
      by (simp add: hd' join_chunks_def)
    have "ov \<le> length (take W ?t')"
      using t'_len "1.prems" by simp
    then have "ov - length (take W ?t') = 0"
      by (simp only: diff_is_0_eq)
    then have "drop ov (take W ?t') @ concat (map (drop ov) rest) =
        drop ov (take W ?t' @ concat (map (drop ov) rest))"
      by (simp only: drop_append drop_0)
    also have "\<dots> = drop ov ?t'" by (simp only: j)
    also have "\<dots> = drop W t" using "1.prems" by simp
    finally have "concat (map (drop ov) (sliding_windows W ov ?t')) = drop W t"
      by (simp add: hd')
    then show ?thesis
      by (simp add: sw join_chunks_def)
  qed
qed

lemma sliding_windows_2500:
  assumes "length t = 2500"
  shows "map length (sliding_windows 1000 200 t) = [1000, 1000, 900]"
proof -
  have 1: "sliding_windows 1000 200 t = take 1000 t # sliding_windows 1000 200 (drop 800 t)"
    using sliding_windows_long[of 1000 t 200] assms by simp
  have 2: "sliding_windows 1000 200 (drop 800 t) =
      take 1000 (drop 800 t) # sliding_windows 1000 200 (drop 1600 t)"
    using sliding_windows_long[of 1000 "drop 800 t" 200] assms by simp
  have 3: "sliding_windows 1000 200 (drop 1600 t) = [drop 1600 t]"
  proof -
    have "drop 1600 t \<noteq> []" using assms by auto
    moreover have "length (drop 1600 t) \<le> 1000" using assms by simp
    ultimately show ?thesis by (rule sliding_windows_short)
  qed
  show ?thesis by (simp add: 1 2 3 assms)
qed

lemma dropWhile_none: "\<forall>c \<in> set s. \<not> P c \<Longrightarrow> dropWhile P s = s"
  by (cases s) simp_all

lemma strip_no_space:
  assumes "\<forall>c \<in> set s. \<not> is_space c"
  shows "strip s = s"
proof -
  have "dropWhile is_space s = s" using assms by (rule dropWhile_none)
  moreover have "dropWhile is_space (rev s) = rev s"
    using assms by (intro dropWhile_none) simp
  ultimately show ?thesis by (simp add: strip_def)
qed

lemma join_docs_singles:
  assumes "\<forall>c \<in> set xs. \<not> is_space c"
  shows "join_docs (map (\<lambda>c. [c]) xs) = (if xs = [] then [] else [xs])"
  using strip_no_space[OF assms] by (simp add: join_docs_def Let_def concat_map_singleton)

lemma not_occurs_in:
  assumes "hd sep \<notin> set t" and "sep \<noteq> []"
  shows "\<not> occurs_in sep t"
  using assms(1)
proof (induction t)
  case Nil
  then show ?case using assms(2) by simp
next
  case (Cons c cs)
  have "take (length sep) (c # cs) \<noteq> sep"
  proof
    assume "take (length sep) (c # cs) = sep"
    then have "hd sep = c" using assms(2) by (cases sep) auto
    then show False using Cons.prems by simp
  qed
  then show ?case using Cons by simp
qed

lemma space_chars: "is_space (CHR 0x0A)" "is_space (CHR '' '')"
  by (simp_all add: is_space_def)

lemma split_text_no_space:
  assumes "\<forall>c \<in> set text. \<not> is_space c"
  shows "split_text W ov text = split_loop W ov None [] [] (map (\<lambda>c. [c]) text)"
proof -
  have "CHR 0x0A \<notin> set text" "CHR '' '' \<notin> set text"
    using assms space_chars by blast+
  then have "\<not> occurs_in [CHR 0x0A, CHR 0x0A] text" "\<not> occurs_in [CHR 0x0A] text"
    "\<not> occurs_in '' '' text"
    by (simp_all add: not_occurs_in)
  then show ?thesis
    by (simp add: split_text_def default_separators_def split_text_with_regex_def)
qed

lemma split_loop_singles:
  assumes "1 < W"
  shows "split_loop W ov deeper good final (map (\<lambda>c. [c]) xs) =
           final @ (if good @ map (\<lambda>c. [c]) xs \<noteq> []
                    then merge_splits W ov (good @ map (\<lambda>c. [c]) xs) else [])"
  using assms by (induction xs arbitrary: good) simp_all

lemma pop_front_singles:
  assumes "ov < W"
  shows "pop_front W ov (Suc 0) (map (\<lambda>c. [c]) xs) = map (\<lambda>c. [c]) (drop (length xs - ov) xs)"
proof (induction xs)
  case Nil
  then show ?case by simp
next
  case (Cons x xs)
  show ?case
  proof (cases "ov < Suc (length xs)")
    case True
    then have "Suc (length xs) - ov = Suc (length xs - ov)" by simp
    then show ?thesis
      using True Cons by (simp add: concat_map_singleton)
  next
    case False
    then show ?thesis
      using assms by (simp add: concat_map_singleton)
  qed
qed

lemma merge_loop_singles:
  assumes "ov < W"
  shows "length xs \<le> W \<Longrightarrow> \<forall>c \<in> set (xs @ rest). \<not> is_space c \<Longrightarrow>
         merge_loop W ov docs (map (\<lambda>c. [c]) xs) (map (\<lambda>c. [c]) rest) =
           docs @ sliding_windows W ov (xs @ rest)"
proof (induction rest arbitrary: docs xs)
  case Nil
  then have "join_docs (map (\<lambda>c. [c]) xs) = (if xs = [] then [] else [xs])"
    by (simp add: join_docs_singles)
  moreover have "sliding_windows W ov xs = (if xs = [] then [] else [xs])"
    using Nil.prems(1) by (simp add: sliding_windows_Nil sliding_windows_short)
  ultimately show ?case by simp
next
  case (Cons d rest)
  show ?case
  proof (cases "length xs < W")
    case True
    have "merge_loop W ov docs (map (\<lambda>c. [c]) xs) (map (\<lambda>c. [c]) (d # rest)) =
        merge_loop W ov docs (map (\<lambda>c. [c]) (xs @ [d])) (map (\<lambda>c. [c]) rest)"
      using True by (simp add: concat_map_singleton)
    also have "\<dots> = docs @ sliding_windows W ov ((xs @ [d]) @ rest)"
      using True Cons.prems(2) by (intro Cons.IH) auto
    finally show ?thesis by simp
  next
    case False
    with Cons.prems(1) have full: "length xs = W" by simp
    then have ne: "xs \<noteq> []" using assms by auto
    have nospace: "\<forall>c \<in> set xs. \<not> is_space c" using Cons.prems(2) by simp
    have "merge_loop W ov docs (map (\<lambda>c. [c]) xs) (map (\<lambda>c. [c]) (d # rest)) =
        merge_loop W ov (docs @ [xs]) (map (\<lambda>c. [c]) (drop (W - ov) xs @ [d])) (map (\<lambda>c. [c]) rest)"
      using full ne by (simp add: concat_map_singleton join_docs_singles[OF nospace]
          pop_front_singles[OF assms])
    also have "\<dots> = (docs @ [xs]) @ sliding_windows W ov ((drop (W - ov) xs @ [d]) @ rest)"
    proof (rule Cons.IH)
      show "length (drop (W - ov) xs @ [d]) \<le> W" using full assms by simp
      show "\<forall>c \<in> set ((drop (W - ov) xs @ [d]) @ rest). \<not> is_space c"
        using Cons.prems(2) by (auto dest: in_set_dropD)
    qed
    also have "sliding_windows W ov (xs @ d # rest) =
        xs # sliding_windows W ov ((drop (W - ov) xs @ [d]) @ rest)"
      using sliding_windows_long[of W "xs @ d # rest" ov] full assms by simp
    then have "(docs @ [xs]) @ sliding_windows W ov ((drop (W - ov) xs @ [d]) @ rest) =
        docs @ sliding_windows W ov (xs @ d # rest)"
      by simp
    finally show ?thesis .
  qed
qed

lemma split_text_windows:
  assumes "\<forall>c \<in> set text. \<not> is_space c" and "ov < W" and "1 < W"
  shows "split_text W ov text = sliding_windows W ov text"
proof (cases "text = []")
  case True
  then show ?thesis
    by (simp add: split_text_no_space sliding_windows_Nil)
next
  case False
  have "split_text W ov text = merge_splits W ov (map (\<lambda>c. [c]) text)"
    using False by (simp add: split_text_no_space[OF assms(1)] split_loop_singles[OF assms(3)])
  also have "\<dots> = sliding_windows W ov text"
    using merge_loop_singles[OF assms(2), of "[]" "text" "[]"] assms(1)
    by (simp add: merge_splits_def)
  finally show ?thesis .
qed

lemma split_single_document:
  "snd (split_documents recursive_character_text_splitter [d]) =
     Inr (map (\<lambda>t. \<lparr>page_content = t, metadata = metadata d\<rparr>)
            (split_text 1000 200 (page_content d)))"
  by (simp add: split_documents_def recursive_character_text_splitter_def Let_def
      io_bind_print io_return_def)

text \<open>
  Claim C2, as amended. For a document whose text contains no whitespace character, split
  by the library's splitter with chunk size 1000 and overlap 200: every chunk except the
  last has length exactly 1000; the last 200 characters of each chunk are the first 200
  characters of the next one, and that region has exactly 200 characters; the first chunk
  followed by every later chunk without its first 200 characters is the original text; and
  a text of 2500 characters yields 3 chunks of lengths 1000, 1000 and 900.
\<close>

theorem splitter_windows_on_text_without_whitespace:
  assumes "\<forall>c \<in> set (page_content d). \<not> is_space c"
    and "snd (split_documents recursive_character_text_splitter [d]) = Inr chunks"
  shows "(\<forall>i. Suc i < length chunks \<longrightarrow>
            length (page_content (chunks ! i)) = 1000 \<and>
            drop 800 (page_content (chunks ! i)) = take 200 (page_content (chunks ! Suc i)) \<and>
            length (take 200 (page_content (chunks ! Suc i))) = 200)
       \<and> join_chunks 200 (map page_content chunks) = page_content d
       \<and> (length (page_content d) = 2500 \<longrightarrow>
            map (\<lambda>c. length (page_content c)) chunks = [1000, 1000, 900])"
proof -
  let ?sw = "sliding_windows 1000 200 (page_content d)"
  have "split_text 1000 200 (page_content d) = ?sw"
    using assms(1) by (intro split_text_windows) simp_all
  then have chunks: "chunks = map (\<lambda>t. \<lparr>page_content = t, metadata = metadata d\<rparr>) ?sw"
    using assms(2) by (simp add: split_single_document)
  then have texts: "map page_content chunks = ?sw"
    by (simp add: comp_def)
  have len: "length chunks = length ?sw" by (simp add: chunks)
  have nth: "page_content (chunks ! i) = ?sw ! i" if "i < length chunks" for i
    using that by (simp add: chunks)
  have "length (page_content (chunks ! i)) = 1000 \<and>
        drop 800 (page_content (chunks ! i)) = take 200 (page_content (chunks ! Suc i)) \<and>
        length (take 200 (page_content (chunks ! Suc i))) = 200"
    if "Suc i < length chunks" for i
  proof -
    have "Suc i < length ?sw" using that len by simp
    from sliding_windows_neighbours[of 200 1000, OF _ this]
    show ?thesis using that by (simp add: nth)
  qed
  moreover have "join_chunks 200 (map page_content chunks) = page_content d"
    unfolding texts by (rule join_sliding_windows) simp
  moreover have "map (\<lambda>c. length (page_content c)) chunks = [1000, 1000, 900]"
    if "length (page_content d) = 2500"
  proof -
    have "map (\<lambda>c. length (page_content c)) chunks = map length (map page_content chunks)"
      by (simp add: comp_def)
    then show ?thesis unfolding texts using sliding_windows_2500[OF that] by simp
  qed
  ultimately show ?thesis by blast
qed

lemma occurs_in_middle: "sep \<noteq> [] \<Longrightarrow> occurs_in sep (xs @ sep @ rest)"
  by (induction xs) (auto simp: neq_Nil_conv)

lemma pieces_end: "pieces sep cur [] = [cur]"
  by (simp add: pieces.simps)

lemma pieces_hit: "sep \<noteq> [] \<Longrightarrow> pieces sep cur (sep @ rest) = cur # pieces sep [] rest"
  by (subst pieces.simps) simp

lemma pieces_skip:
  assumes "sep \<noteq> []" and "hd sep \<notin> set xs"
  shows "pieces sep cur (xs @ rest) = pieces sep (cur @ xs) rest"
  using assms(2)
proof (induction xs arbitrary: cur)
  case Nil
  then show ?case by simp
next
  case (Cons x xs)
  have "take (length sep) (x # xs @ rest) \<noteq> sep"
  proof
    assume "take (length sep) (x # xs @ rest) = sep"
    then have "hd sep = x" using assms(1) by (cases sep) auto
    then show False using Cons.prems by simp
  qed
  then have "pieces sep cur ((x # xs) @ rest) = pieces sep (cur @ [x]) (xs @ rest)"
    by (subst pieces.simps) simp
  also have "\<dots> = pieces sep ((cur @ [x]) @ xs) rest"
    using Cons.prems by (intro Cons.IH) simp
  finally show ?case by simp
qed

lemma strip_leading_space:
  assumes "is_space c" and "\<forall>x \<in> set s. \<not> is_space x"
  shows "strip (c # s) = s"
proof -
  have "dropWhile is_space (rev s) = rev s"
    using assms(2) by (intro dropWhile_none) simp
  then show ?thesis
    using assms by (simp add: strip_def dropWhile_none)
qed

text \<open>
  Two runs of letters joined by one space, each shorter than the chunk size and together
  longer: the splitter cuts at the space and returns the two runs, without the space and
  without overlap.
\<close>

lemma split_text_two_words:
  assumes "\<forall>x \<in> set A. \<not> is_space x" and "\<forall>x \<in> set B. \<not> is_space x"
    and "A \<noteq> []" and "B \<noteq> []"
    and "length A < W" and "Suc (length B) < W" and "W < length A + Suc (length B)"
  shows "split_text W ov (A @ '' '' @ B) = [A, B]"
proof -
  have nl: "CHR 0x0A \<notin> set (A @ '' '' @ B)"
    using assms(1,2) space_chars(1) by auto
  have sp: "CHR '' '' \<notin> set A" "CHR '' '' \<notin> set B"
    using assms(1,2) space_chars(2) by blast+
  have no: "\<not> occurs_in [CHR 0x0A, CHR 0x0A] (A @ '' '' @ B)"
    "\<not> occurs_in [CHR 0x0A] (A @ '' '' @ B)"
    using nl by (simp_all add: not_occurs_in)
  have yes: "occurs_in '' '' (A @ '' '' @ B)"
    by (rule occurs_in_middle) simp
  have "pieces '' '' [] (A @ '' '' @ B) = pieces '' '' A ('' '' @ B)"
    using pieces_skip[of "'' ''" A "[]" "'' '' @ B"] sp by simp
  also have "\<dots> = A # pieces '' '' [] (B @ [])"
    using pieces_hit[of "'' ''" A B] by simp
  also have "pieces '' '' [] (B @ []) = [B]"
    using pieces_skip[of "'' ''" B "[]" "[]"] sp by (simp add: pieces_end)
  finally have p: "pieces '' '' [] (A @ '' '' @ B) = [A, B]" .
  have splits: "split_text_with_regex (A @ '' '' @ B) '' '' = [A, '' '' @ B]"
    using assms(3) p by (simp add: split_text_with_regex_def)
  have j1: "join_docs [A] = [A]"
    using assms(1,3) by (simp add: join_docs_def Let_def strip_no_space)
  have j2: "join_docs ['' '' @ B] = [B]"
    using assms(2,4) space_chars(2) by (simp add: join_docs_def Let_def strip_leading_space)
  have pop: "pop_front W ov (Suc (length B)) [A] = []"
    using assms(3,7) by simp
  have "merge_splits W ov [A, '' '' @ B] = [A, B]"
    using assms(3,7) j1 j2 pop by (simp add: merge_splits_def)
  then show ?thesis
    using no yes assms(5,6) splits
    by (simp add: split_text_def default_separators_def)
qed

lemma padded_document_chunks: "split_text 1000 200 '' hello '' = [''hello'']"
  by code_simp

text \<open>
  Claim C2 as stated fails on a text of 600 letters, a space and 600 letters: the splitter
  cuts at the space and returns the two runs of 600 letters, so the first chunk does not
  have length 1000, the two chunks share no 200 characters, and joining them does not give
  the text back. It also fails on the text of a word between two spaces, whose only chunk
  is the word.
\<close>

theorem splitter_windows_on_text_without_whitespace_counterexample:
  "snd (split_documents recursive_character_text_splitter [spaced_document]) =
     Inr [\<lparr>page_content = replicate 600 (CHR ''a''), metadata = [(''source'', ''/app/data/CV/resume.txt'')]\<rparr>,
          \<lparr>page_content = replicate 600 (CHR ''b''), metadata = [(''source'', ''/app/data/CV/resume.txt'')]\<rparr>]
   \<and> length (replicate 600 (CHR ''a'')) \<noteq> 1000
   \<and> drop 800 (replicate 600 (CHR ''a'')) \<noteq> take 200 (replicate 600 (CHR ''b''))
   \<and> join_chunks 200 [replicate 600 (CHR ''a''), replicate 600 (CHR ''b'')] \<noteq>
       page_content spaced_document
   \<and> snd (split_documents recursive_character_text_splitter [padded_document]) =
     Inr [\<lparr>page_content = ''hello'', metadata = [(''source'', ''/app/data/CV/resume.txt'')]\<rparr>]
   \<and> join_chunks 200 [''hello''] \<noteq> page_content padded_document"
proof -
  have a: "\<not> is_space (CHR ''a'')" "\<not> is_space (CHR ''b'')"
    by (simp_all add: is_space_def)
  have "split_text 1000 200 (replicate 600 (CHR ''a'') @ '' '' @ replicate 600 (CHR ''b'')) =
      [replicate 600 (CHR ''a''), replicate 600 (CHR ''b'')]"
    by (rule split_text_two_words) (simp_all add: a)
  then have 1: "snd (split_documents recursive_character_text_splitter [spaced_document]) =
     Inr [\<lparr>page_content = replicate 600 (CHR ''a''), metadata = [(''source'', ''/app/data/CV/resume.txt'')]\<rparr>,
          \<lparr>page_content = replicate 600 (CHR ''b''), metadata = [(''source'', ''/app/data/CV/resume.txt'')]\<rparr>]"
    by (simp add: split_single_document spaced_document_def)
  have 2: "drop 800 (replicate 600 (CHR ''a'')) \<noteq> take 200 (replicate 600 (CHR ''b''))"
    by simp
  have "length (join_chunks 200 [replicate 600 (CHR ''a''), replicate 600 (CHR ''b'')]) = 1000"
    by (simp add: join_chunks_def)
  moreover have "length (page_content spaced_document) = 1201"
    by (simp add: spaced_document_def)
  ultimately have 3: "join_chunks 200 [replicate 600 (CHR ''a''), replicate 600 (CHR ''b'')] \<noteq>
       page_content spaced_document"
    by auto
  have 4: "snd (split_documents recursive_character_text_splitter [padded_document]) =
     Inr [\<lparr>page_content = ''hello'', metadata = [(''source'', ''/app/data/CV/resume.txt'')]\<rparr>]"
    by (simp add: split_single_document padded_document_def padded_document_chunks)
  have 5: "join_chunks 200 [''hello''] \<noteq> page_content padded_document"
    by (simp add: join_chunks_def padded_document_def)
  show ?thesis using 1 2 3 4 5 by simp
qed

theorem splitter_windows_on_text_without_whitespace_witness:
  "snd (split_documents recursive_character_text_splitter [long_document]) =
     Inr (recursive_character_text_splitter 1000 200 [long_document]) \<and>
   join_chunks 200 (map page_content (recursive_character_text_splitter 1000 200 [long_document])) =
     replicate 2500 (CHR ''a'') \<and>
   map (\<lambda>c. length (page_content c)) (recursive_character_text_splitter 1000 200 [long_document]) =
     [1000, 1000, 900]"
proof -
  have n: "\<forall>c \<in> set (page_content long_document). \<not> is_space c"
    by (simp add: long_document_def is_space_def)
  have h: "snd (split_documents recursive_character_text_splitter [long_document]) =
     Inr (recursive_character_text_splitter 1000 200 [long_document])"
    by (simp add: split_documents_def Let_def io_bind_print io_return_def)
  have l: "length (page_content long_document) = 2500"
    by (simp add: long_document_def)
  have p: "page_content long_document = replicate 2500 (CHR ''a'')"
    by (simp add: long_document_def)
  show ?thesis
    using splitter_windows_on_text_without_whitespace[OF n h] h l p by simp
qed

lemma example_validity:
  "is_valid_chunk resume_document" "\<not> is_valid_chunk blank_document"
  "is_valid_chunk skills_document"
  by code_simp+

lemma example_chunks_valid:
  "filter is_valid_chunk [resume_document, blank_document, skills_document] =
     [resume_document, skills_document]"
  by (simp add: example_validity)

lemma example_batch:
  "make_batch [resume_document, skills_document]
     (map page_content [resume_document, skills_document])
     (map metadata [resume_document, skills_document]) vs =
   \<lparr>batch_ids = [0, 1], batch_vectors = vs,
    batch_payloads =
      [[(''page_content'', Str ''Python developer''),
        (''metadata'', Dict [(''source'', ''/app/data/CV/resume.txt'')])],
       [(''page_content'', Str ''Data engineer''),
        (''metadata'', Dict [(''source'', ''/app/data/CV/skills.md'')])]]\<rparr>"
  by (simp add: make_batch_def make_payload_def resume_document_def skills_document_def upt_rec)

theorem collection_looked_up_then_trusted_or_created_witness:
  "calls_of (fst (generate_and_store_embeddings
       (stub_remote (Inr [[1, 2], [3, 4]]) (Inr (768, EUCLID))) default_config
       [resume_document, blank_document, skills_document])) =
     [NewEmbeddings ''models/text-embedding-004'',
      EmbedDocuments [''Python developer'', ''Data engineer''],
      NewQdrantClient ''localhost'' 6333,
      GetCollection ''perfil_personal'',
      Upsert ''perfil_personal''
        (make_batch [resume_document, skills_document]
           [''Python developer'', ''Data engineer'']
           [[(''source'', ''/app/data/CV/resume.txt'')], [(''source'', ''/app/data/CV/skills.md'')]]
           [[1, 2], [3, 4]]) True]
   \<and>
   calls_of (fst (generate_and_store_embeddings
       (stub_remote (Inr [[1, 2], [3, 4]]) (Inl (Exception ''Not found''))) default_config
       [resume_document, blank_document, skills_document])) =
     [NewEmbeddings ''models/text-embedding-004'',
      EmbedDocuments [''Python developer'', ''Data engineer''],
      NewQdrantClient ''localhost'' 6333,
      GetCollection ''perfil_personal'',
      RecreateCollection ''perfil_personal'' 2 COSINE,
      Upsert ''perfil_personal''
        (make_batch [resume_document, skills_document]
           [''Python developer'', ''Data engineer'']
           [[(''source'', ''/app/data/CV/resume.txt'')], [(''source'', ''/app/data/CV/skills.md'')]]
           [[1, 2], [3, 4]]) True]"
proof -
  have v: "filter is_valid_chunk [resume_document, blank_document, skills_document] \<noteq> []"
    by (simp add: example_validity)
  have t: "map page_content [resume_document, skills_document] = [''Python developer'', ''Data engineer'']"
    "map metadata [resume_document, skills_document] =
       [[(''source'', ''/app/data/CV/resume.txt'')], [(''source'', ''/app/data/CV/skills.md'')]]"
    by (simp_all add: resume_document_def skills_document_def)
  have found:
    "new_embeddings (stub_remote (Inr [[1, 2], [3, 4]]) (Inr (768, EUCLID))) ''models/text-embedding-004'' = None"
    "embed_documents (stub_remote (Inr [[1, 2], [3, 4]]) (Inr (768, EUCLID)))
       (map page_content (filter is_valid_chunk [resume_document, blank_document, skills_document])) =
       Inr ([1, 2] # [[3, 4]])"
    "new_client (stub_remote (Inr [[1, 2], [3, 4]]) (Inr (768, EUCLID)))
       (QDRANT_HOST default_config) (QDRANT_PORT default_config) = None"
    by (simp_all add: stub_remote_def)
  have missing:
    "new_embeddings (stub_remote (Inr [[1, 2], [3, 4]]) (Inl (Exception ''Not found''))) ''models/text-embedding-004'' = None"
    "embed_documents (stub_remote (Inr [[1, 2], [3, 4]]) (Inl (Exception ''Not found'')))
       (map page_content (filter is_valid_chunk [resume_document, blank_document, skills_document])) =
       Inr ([1, 2] # [[3, 4]])"
    "new_client (stub_remote (Inr [[1, 2], [3, 4]]) (Inl (Exception ''Not found'')))
       (QDRANT_HOST default_config) (QDRANT_PORT default_config) = None"
    by (simp_all add: stub_remote_def)
  show ?thesis
    using collection_looked_up_then_trusted_or_created[OF v found] collection_looked_up_then_trusted_or_created[OF v missing]
    unfolding example_chunks_valid t
    by (simp add: stub_remote_def default_config_def)
qed

theorem first_vector_read_fails_iff_no_vectors_witness:
  "(GetCollection ''perfil_personal'' \<in> set (calls_of (fst (generate_and_store_embeddings
       (stub_remote (Inr [[1, 2], [3, 4]]) (Inr (768, EUCLID))) default_config
       [resume_document, blank_document, skills_document]))))
   \<and> snd (generate_and_store_embeddings
       (stub_remote (Inr []) (Inr (768, EUCLID))) default_config
       [resume_document, blank_document, skills_document]) = Inl IndexError"
proof -
  have v: "filter is_valid_chunk [resume_document, blank_document, skills_document] \<noteq> []"
    by (simp add: example_validity)
  have some:
    "new_embeddings (stub_remote (Inr [[1, 2], [3, 4]]) (Inr (768, EUCLID))) ''models/text-embedding-004'' = None"
    "embed_documents (stub_remote (Inr [[1, 2], [3, 4]]) (Inr (768, EUCLID)))
       (map page_content (filter is_valid_chunk [resume_document, blank_document, skills_document])) =
       Inr [[1, 2], [3, 4]]"
    "new_client (stub_remote (Inr [[1, 2], [3, 4]]) (Inr (768, EUCLID)))
       (QDRANT_HOST default_config) (QDRANT_PORT default_config) = None"
    by (simp_all add: stub_remote_def)
  have none:
    "new_embeddings (stub_remote (Inr []) (Inr (768, EUCLID))) ''models/text-embedding-004'' = None"
    "embed_documents (stub_remote (Inr []) (Inr (768, EUCLID)))
       (map page_content (filter is_valid_chunk [resume_document, blank_document, skills_document])) =
       Inr []"
    "new_client (stub_remote (Inr []) (Inr (768, EUCLID)))
       (QDRANT_HOST default_config) (QDRANT_PORT default_config) = None"
    by (simp_all add: stub_remote_def)
  show ?thesis
    using first_vector_read_fails_iff_no_vectors[OF v some] first_vector_read_fails_iff_no_vectors[OF v none]
    by (simp add: default_config_def)
qed

theorem missing_directory_loads_nothing_witness:
  "\<not> isdir empty_filesystem ''/app/data/CV'' \<and>
   load_documents_from_directory empty_filesystem ''/app/data/CV'' =
     ([Warn_directory_missing ''/app/data/CV''], Inr [])"
  using missing_directory_loads_nothing[of empty_filesystem "''/app/data/CV''"]
  by (simp add: empty_filesystem_def)

theorem corrupt_file_skipped_valid_file_loaded_witness:
  "load_documents_from_directory cv_filesystem ''/app/data/CV'' =
     ([Loading PyPDFLoader ''/app/data/CV/broken.pdf'',
       Error_loading_file ''/app/data/CV/broken.pdf'' (Exception ''corrupt file''),
       Loading TextLoader ''/app/data/CV/resume.txt'',
       Loaded_documents 1 ''/app/data/CV''], Inr [resume_document])"
proof -
  have h1: "isdir cv_filesystem ''/app/data/CV''"
    by (simp add: cv_filesystem_def)
  have h2: "walk cv_filesystem ''/app/data/CV'' =
      [(''/app/data/CV'', [], [''broken.pdf'', ''resume.txt''])]"
    by (simp add: cv_filesystem_def)
  have h3: "[''broken.pdf'', ''resume.txt''] = [''broken.pdf'', ''resume.txt''] \<or>
      [''broken.pdf'', ''resume.txt''] = [''resume.txt'', ''broken.pdf'']"
    by simp
  have h4: "LOADER_MAPPING (lower (splitext_ext ''broken.pdf'')) = Some PyPDFLoader"
    by code_simp
  have h5: "LOADER_MAPPING (lower (splitext_ext ''resume.txt'')) = Some TextLoader"
    by code_simp
  have p1: "path_join ''/app/data/CV'' ''broken.pdf'' = ''/app/data/CV/broken.pdf''"
    by (simp add: path_join_def)
  have p2: "path_join ''/app/data/CV'' ''resume.txt'' = ''/app/data/CV/resume.txt''"
    by (simp add: path_join_def)
  have h6: "load cv_filesystem PyPDFLoader (path_join ''/app/data/CV'' ''broken.pdf'') =
      Inl (Exception ''corrupt file'')"
    by (simp add: p1 cv_filesystem_def)
  have h7: "is_Exception (Exception ''corrupt file'')"
    by simp
  have h8: "load cv_filesystem TextLoader (path_join ''/app/data/CV'' ''resume.txt'') =
      Inr [resume_document]"
    by (simp add: p2 cv_filesystem_def)
  show ?thesis
    using corrupt_file_skipped_valid_file_loaded[OF h1 h2 h3 h4 h5 h6 h7 h8] by (simp add: p1 p2)
qed

lemma empty_filesystem_loads_nothing:
  "load_documents_from_directory empty_filesystem d = ([Warn_directory_missing d], Inr [])"
  by (simp add: load_documents_from_directory_def empty_filesystem_def io_bind_print io_return_def)

theorem no_documents_no_remote_request_witness:
  "snd (load_documents_from_directory empty_filesystem ''/app/data/CV'') = Inr [] \<and>
   snd (data_ingestion_flow empty_filesystem whole_splitter
          (stub_remote (Inr [[1, 2]]) (Inl (Exception ''not found''))) default_config
          ''/app/data/CV'' ''/app/data/proyectos'' ''/app/data/repos'') = Inr () \<and>
   calls_of (fst (data_ingestion_flow empty_filesystem whole_splitter
          (stub_remote (Inr [[1, 2]]) (Inl (Exception ''not found''))) default_config
          ''/app/data/CV'' ''/app/data/proyectos'' ''/app/data/repos'')) = []"
  using no_documents_no_remote_request[of empty_filesystem "''/app/data/CV''" "''/app/data/proyectos''" "''/app/data/repos''"
      whole_splitter "stub_remote (Inr [[1, 2]]) (Inl (Exception ''not found''))" default_config]
  by (simp add: empty_filesystem_loads_nothing)

lemma cv_filesystem_loads_resume:
  "snd (load_documents_from_directory cv_filesystem ''/app/data/CV'') = Inr [resume_document]"
  by code_simp

lemma cv_filesystem_other:
  "d \<noteq> ''/app/data/CV'' \<Longrightarrow> snd (load_documents_from_directory cv_filesystem d) = Inr []"
  by (simp add: load_documents_from_directory_def cv_filesystem_def io_bind_print io_return_def)

lemma split_resume: "snd (split_documents whole_splitter [resume_document]) = Inr [resume_document]"
  by (simp add: split_documents_def whole_splitter_def io_bind_print io_return_def)

theorem embedding_failure_reraised_without_retry_witness:
  "snd (data_ingestion_flow cv_filesystem whole_splitter
          (stub_remote (Inl (Exception ''quota exceeded'')) (Inr (768, COSINE))) default_config
          ''/app/data/CV'' ''/app/data/proyectos'' ''/app/data/repos'') =
     Inl (Exception ''quota exceeded'') \<and>
   calls_of (fst (data_ingestion_flow cv_filesystem whole_splitter
          (stub_remote (Inl (Exception ''quota exceeded'')) (Inr (768, COSINE))) default_config
          ''/app/data/CV'' ''/app/data/proyectos'' ''/app/data/repos'')) =
     [NewEmbeddings ''models/text-embedding-004'', EmbedDocuments [''Python developer'']]"
proof -
  have h1: "snd (load_documents_from_directory cv_filesystem ''/app/data/CV'') = Inr [resume_document]"
    by (rule cv_filesystem_loads_resume)
  have h2: "snd (load_documents_from_directory cv_filesystem ''/app/data/proyectos'') = Inr []"
    by (rule cv_filesystem_other) simp
  have h3: "snd (load_documents_from_directory cv_filesystem ''/app/data/repos'') = Inr []"
    by (rule cv_filesystem_other) simp
  have h4: "[resume_document] @ [] @ [] \<noteq> []"
    by simp
  have h5: "snd (split_documents whole_splitter ([resume_document] @ [] @ [])) = Inr [resume_document]"
    by (simp add: split_resume)
  have h6: "filter is_valid_chunk [resume_document] \<noteq> []"
    by (simp add: example_validity)
  have h7: "new_embeddings (stub_remote (Inl (Exception ''quota exceeded'')) (Inr (768, COSINE)))
      ''models/text-embedding-004'' = None"
    by (simp add: stub_remote_def)
  have h8: "embed_documents (stub_remote (Inl (Exception ''quota exceeded'')) (Inr (768, COSINE)))
      (map page_content (filter is_valid_chunk [resume_document])) = Inl (Exception ''quota exceeded'')"
    by (simp add: stub_remote_def)
  show ?thesis
    using embedding_failure_reraised_without_retry[OF h1 h2 h3 h4 h5 h6 h7 h8, of default_config]
    by (simp add: example_validity) (simp add: resume_document_def)
qed

lemma example_run_calls:
  "calls_of (fst (generate_and_store_embeddings (stub_remote (Inr (v # vs)) (Inr d)) default_config
       [resume_document, blank_document, skills_document])) =
     [NewEmbeddings ''models/text-embedding-004'',
      EmbedDocuments [''Python developer'', ''Data engineer''],
      NewQdrantClient ''localhost'' 6333,
      GetCollection ''perfil_personal'',
      Upsert ''perfil_personal''
        (make_batch [resume_document, skills_document]
           (map page_content [resume_document, skills_document])
           (map metadata [resume_document, skills_document]) (v # vs)) True]"
proof -
  have h: "filter is_valid_chunk [resume_document, blank_document, skills_document] \<noteq> []"
    "new_embeddings (stub_remote (Inr (v # vs)) (Inr d)) ''models/text-embedding-004'' = None"
    "embed_documents (stub_remote (Inr (v # vs)) (Inr d))
       (map page_content (filter is_valid_chunk [resume_document, blank_document, skills_document])) =
       Inr (v # vs)"
    "new_client (stub_remote (Inr (v # vs)) (Inr d))
       (QDRANT_HOST default_config) (QDRANT_PORT default_config) = None"
    by (simp_all add: stub_remote_def example_validity)
  have t: "page_content resume_document = ''Python developer''"
    "page_content skills_document = ''Data engineer''"
    by (simp_all add: resume_document_def skills_document_def)
  show ?thesis
    unfolding calls_of_generate_embedded[OF h] example_chunks_valid
    by (simp add: stub_remote_def default_config_def t)
qed

theorem upsert_payloads_are_valid_chunks_witness:
  "Upsert ''perfil_personal''
     \<lparr>batch_ids = [0, 1], batch_vectors = [[1, 2], [3, 4]],
      batch_payloads =
        [[(''page_content'', Str ''Python developer''),
          (''metadata'', Dict [(''source'', ''/app/data/CV/resume.txt'')])],
         [(''page_content'', Str ''Data engineer''),
          (''metadata'', Dict [(''source'', ''/app/data/CV/skills.md'')])]]\<rparr> True
     \<in> set (calls_of (fst (generate_and_store_embeddings
            (stub_remote (Inr [[1, 2], [3, 4]]) (Inr (768, COSINE))) default_config
            [resume_document, blank_document, skills_document])))
   \<and> strip ''Python developer'' \<noteq> [] \<and> strip ''Data engineer'' \<noteq> []"
proof -
  let ?b = "\<lparr>batch_ids = [0, 1], batch_vectors = [[1, 2], [3, 4]],
      batch_payloads =
        [[(''page_content'', Str ''Python developer''),
          (''metadata'', Dict [(''source'', ''/app/data/CV/resume.txt'')])],
         [(''page_content'', Str ''Data engineer''),
          (''metadata'', Dict [(''source'', ''/app/data/CV/skills.md'')])]]\<rparr>"
  have h: "Upsert ''perfil_personal'' ?b True
     \<in> set (calls_of (fst (generate_and_store_embeddings
            (stub_remote (Inr [[1, 2], [3, 4]]) (Inr (768, COSINE))) default_config
            [resume_document, blank_document, skills_document])))"
    unfolding example_run_calls example_batch by simp
  from upsert_payloads_are_valid_chunks[OF h] have "\<forall>p \<in> set (batch_payloads ?b).
      \<exists>t m. p = [(''page_content'', Str t), (''metadata'', Dict m)] \<and> strip t \<noteq> []"
    by blast
  then have "strip ''Python developer'' \<noteq> [] \<and> strip ''Data engineer'' \<noteq> []"
    by simp
  with h show ?thesis by simp
qed

theorem point_ids_positional_and_rerun_replaces_witness:
  "Upsert ''perfil_personal''
     (make_batch [resume_document, skills_document]
        (map page_content [resume_document, skills_document])
        (map metadata [resume_document, skills_document]) [[1, 2], [3, 4]]) True
     \<in> set (calls_of (fst (generate_and_store_embeddings
            (stub_remote (Inr [[1, 2], [3, 4]]) (Inr (2, COSINE))) default_config
            [resume_document, blank_document, skills_document])))
   \<and> batch_ids (make_batch [resume_document, skills_document]
        (map page_content [resume_document, skills_document])
        (map metadata [resume_document, skills_document]) [[1, 2], [3, 4]]) = [0, 1]
   \<and> dom (store_upsert
        (store_upsert Map.empty
           (make_batch [resume_document, skills_document]
              (map page_content [resume_document, skills_document])
              (map metadata [resume_document, skills_document]) [[1, 2], [3, 4]]))
        (make_batch [resume_document, skills_document]
           (map page_content [resume_document, skills_document])
           (map metadata [resume_document, skills_document]) [[5, 6], [7, 8]])) = {0, 1}"
proof -
  let ?b1 = "make_batch [resume_document, skills_document]
        (map page_content [resume_document, skills_document])
        (map metadata [resume_document, skills_document]) [[1, 2], [3, 4]]"
  let ?b2 = "make_batch [resume_document, skills_document]
        (map page_content [resume_document, skills_document])
        (map metadata [resume_document, skills_document]) [[5, 6], [7, 8]]"
  have h1: "Upsert ''perfil_personal'' ?b1 True
     \<in> set (calls_of (fst (generate_and_store_embeddings
            (stub_remote (Inr [[1, 2], [3, 4]]) (Inr (2, COSINE))) default_config
            [resume_document, blank_document, skills_document])))"
    by (simp add: example_run_calls)
  have h2: "Upsert ''perfil_personal'' ?b2 True
     \<in> set (calls_of (fst (generate_and_store_embeddings
            (stub_remote (Inr [[5, 6], [7, 8]]) (Inr (2, COSINE))) default_config
            [resume_document, blank_document, skills_document])))"
    by (simp add: example_run_calls)
  have h3: "length (batch_vectors ?b1) = length (batch_ids ?b1)"
    by (simp add: make_batch_def)
  have h4: "length (batch_vectors ?b2) = length (batch_ids ?b2)"
    by (simp add: make_batch_def)
  have two: "{0..<length (filter is_valid_chunk [resume_document, blank_document, skills_document])} = {0, 1}"
    "[0..<length (filter is_valid_chunk [resume_document, blank_document, skills_document])] = [0, 1]"
    by (auto simp: example_validity upt_rec)
  from point_ids_positional_and_rerun_replaces[OF h1 h2 h3 h4, of Map.empty]
  have "batch_ids ?b1 = [0, 1]" and "dom (store_upsert (store_upsert Map.empty ?b1) ?b2) = {0, 1}"
    unfolding two by simp_all
  with h1 show ?thesis by simp
qed

text \<open>
  Claim C1 as stated fails: for two chunk texts the provider answers with three vectors of
  lengths 2, 1 and 0. Nothing is raised; the run goes on to the store, creates the collection
  with the size of the first vector, upserts the three vectors with the two identifiers and
  payloads, and completes.
\<close>

theorem embedding_stage_returns_provider_answer_unchecked_counterexample:
  "generate_and_store_embeddings
     (stub_remote (Inr [[1, 2], [3], []]) (Inl (Exception ''Not found''))) default_config
     [resume_document, skills_document] =
   ([Valid_chunks 2, Initialising_embeddings,
     Called (NewEmbeddings ''models/text-embedding-004''),
     Sending_chunks 2,
     Called (EmbedDocuments [''Python developer'', ''Data engineer'']),
     Vectors_generated 3,
     Called (NewQdrantClient ''localhost'' 6333),
     Called (GetCollection ''perfil_personal''),
     Collection_missing ''perfil_personal'' 2,
     Called (RecreateCollection ''perfil_personal'' 2 COSINE),
     Uploading_points,
     Called (Upsert ''perfil_personal''
       \<lparr>batch_ids = [0, 1], batch_vectors = [[1, 2], [3], []],
        batch_payloads =
          [[(''page_content'', Str ''Python developer''),
            (''metadata'', Dict [(''source'', ''/app/data/CV/resume.txt'')])],
           [(''page_content'', Str ''Data engineer''),
            (''metadata'', Dict [(''source'', ''/app/data/CV/skills.md'')])]]\<rparr> True),
     Ingestion_completed], Inr ())"
proof -
  have v: "filter is_valid_chunk [resume_document, skills_document] = [resume_document, skills_document]"
    by (simp add: example_validity)
  have h: "filter is_valid_chunk [resume_document, skills_document] \<noteq> []"
    "new_embeddings (stub_remote (Inr [[1, 2], [3], []]) (Inl (Exception ''Not found'')))
       ''models/text-embedding-004'' = None"
    "embed_documents (stub_remote (Inr [[1, 2], [3], []]) (Inl (Exception ''Not found'')))
       (map page_content (filter is_valid_chunk [resume_document, skills_document])) =
       Inr [[1, 2], [3], []]"
    by (simp_all add: stub_remote_def example_validity)
  have t: "page_content resume_document = ''Python developer''"
    "page_content skills_document = ''Data engineer''"
    by (simp_all add: resume_document_def skills_document_def)
  show ?thesis
    unfolding generate_embedded[OF h] v store_points_result ensure_collection_result example_batch
    by (simp add: stub_remote_def default_config_def t)
qed

end
